theory Spec2Isabelle
  imports
    Main
    "HOL-Library.Word"
    "HOL-Library.AList"
    "HOL-Library.Char_ord"
    "HOL-Library.List_Lexorder"
begin

section \<open>Values carried by a log entry\<close>

text \<open>
  The formatter handles values of Go's dynamic type \<^verbatim>\<open>interface{}\<close>. The constructors
  below are the kinds of value that \<^verbatim>\<open>Format\<close> and the JSON encoder tell apart:
  plain JSON data, values that implement \<^verbatim>\<open>error\<close> (carrying the text that
  \<^verbatim>\<open>Error()\<close> returns), values that implement both \<^verbatim>\<open>error\<close> and
  \<^verbatim>\<open>json.Marshaler\<close> (carrying also what the encoder gets from \<^verbatim>\<open>MarshalJSON\<close>:
  its error, or the value whose JSON text was returned), and values of a type that
  \<^verbatim>\<open>encoding/json\<close> rejects (a channel, a function), carrying the type's name.
  A Go map is an association list with distinct keys.
\<close>

datatype json_error =
    UnsupportedTypeError string
  | MarshalerError string string

datatype gvalue =
    GNil
  | GBool bool
  | GInt int
  | GString string
  | GMap "(string \<times> gvalue) list"
  | GError string
  | GErrorMarshaler string "json_error + gvalue"
  | GUnsupported string

type_synonym Fields = "(string \<times> gvalue) list"

type_synonym bytes = string

section \<open>The logging front-end's types (logrus, runtime, time)\<close>

text \<open>
  \<^verbatim>\<open>logrus.Level\<close> is a \<^verbatim>\<open>uint32\<close>; the seven named levels are the values 0 to 6, and
  \<^verbatim>\<open>Level.String()\<close> names them, answering \<^verbatim>\<open>unknown\<close> for any other value.
\<close>

type_synonym Level = "32 word"

definition PanicLevel :: Level where "PanicLevel = 0"
definition FatalLevel :: Level where "FatalLevel = 1"
definition ErrorLevel :: Level where "ErrorLevel = 2"
definition WarnLevel :: Level where "WarnLevel = 3"
definition InfoLevel :: Level where "InfoLevel = 4"
definition DebugLevel :: Level where "DebugLevel = 5"
definition TraceLevel :: Level where "TraceLevel = 6"

definition Level_String :: "Level \<Rightarrow> string" where
  "Level_String l =
     (if l = TraceLevel then ''trace''
      else if l = DebugLevel then ''debug''
      else if l = InfoLevel then ''info''
      else if l = WarnLevel then ''warning''
      else if l = ErrorLevel then ''error''
      else if l = FatalLevel then ''fatal''
      else if l = PanicLevel then ''panic''
      else ''unknown'')"

text \<open>
  \<^verbatim>\<open>runtime.Frame\<close>, with the three fields the formatter reads; \<^verbatim>\<open>time.Time\<close>, seen
  through the two methods the formatter calls; \<^verbatim>\<open>logrus.Logger\<close>, with the flag that
  \<^verbatim>\<open>HasCaller\<close> reads. In \<^verbatim>\<open>logrus.Entry\<close> the field map \<^verbatim>\<open>Data\<close> is listed in the
  order in which this call's \<^verbatim>\<open>range\<close> visits it (Go leaves that order open), and
  \<^verbatim>\<open>Buffer\<close> holds the contents of the \<^verbatim>\<open>*bytes.Buffer\<close>, \<open>None\<close> for a nil pointer.
\<close>

record frame =
  Function :: string
  File :: string
  Line :: int

record time =
  Unix :: int
  Nanosecond :: int

record logger =
  ReportCaller :: bool

record entry =
  Logger :: "logger option"
  Data :: Fields
  Time :: time
  Level :: Level
  Caller :: "frame option"
  Message :: string
  Buffer :: "bytes option"

definition HasCaller :: "entry \<Rightarrow> bool" where
  "HasCaller e =
     (case Logger e of
        None \<Rightarrow> False
      | Some lg \<Rightarrow> ReportCaller lg \<and> Caller e \<noteq> None)"

section \<open>The formatter's configuration\<close>

text \<open>
  \<^verbatim>\<open>Formatter\<close> as \<^verbatim>\<open>formatter.go\<close> declares it, and its extension by
  \<^verbatim>\<open>TrimFilenamePrefix\<close>, which the second source file of the package declares.
\<close>

record Formatter =
  DisableTimestamp :: bool
  CallerPrettyfier :: "(frame \<Rightarrow> string \<times> string) option"
  PrettyPrint :: bool

record Formatter_trim = Formatter +
  TrimFilenamePrefix :: string

section \<open>stackdriverLevel\<close>

definition stackdriverLevel :: "Level \<Rightarrow> string" where
  "stackdriverLevel l =
     (if l = PanicLevel \<or> l = FatalLevel then ''CRITICAL''
      else if l = ErrorLevel then ''ERROR''
      else if l = WarnLevel then ''WARNING''
      else if l = InfoLevel then ''INFO''
      else if l = DebugLevel \<or> l = TraceLevel then ''DEBUG''
      else ''DEFAULT'')"

section \<open>Building the output document\<close>

text \<open>
  Lines 54 to 62 of \<^verbatim>\<open>formatter.go\<close> (60 to 68 of the second file): the keys that
  \<^verbatim>\<open>Format\<close> sets from the record before it looks at the caller or the field map.
  An assignment \<^verbatim>\<open>data[k] = v\<close> is \<^const>\<open>AList.update\<close>.
\<close>

definition timestampValue :: "entry \<Rightarrow> gvalue" where
  "timestampValue e =
     GMap (AList.update ''nanos'' (GInt (Nanosecond (Time e)))
            (AList.update ''seconds'' (GInt (Unix (Time e))) []))"

definition recordFields :: "'a Formatter_scheme \<Rightarrow> entry \<Rightarrow> Fields" where
  "recordFields f e =
     (let data = [];
          data = (if \<not> DisableTimestamp f
                  then AList.update ''timestamp'' (timestampValue e) data
                  else data);
          data = AList.update ''message'' (GString (Message e)) data;
          data = AList.update ''severity'' (GString (stackdriverLevel (Level e))) data;
          data = AList.update ''level'' (GString (Level_String (Level e))) data
      in data)"

text \<open>
  Lines 70 to 76 (77 to 83): the source-location object, from the function and file
  strings in force and the caller's line.
\<close>

definition sourceLocation :: "string \<Rightarrow> string \<Rightarrow> int \<Rightarrow> Fields" where
  "sourceLocation funcVal fileVal line =
     (let l = [];
          l = (if funcVal \<noteq> '''' then AList.update ''function'' (GString funcVal) l else l);
          l = (if fileVal \<noteq> ''''
               then AList.update ''line'' (GInt line)
                      (AList.update ''file'' (GString fileVal) l)
               else l)
      in l)"

definition sourceLocationKey :: string where
  "sourceLocationKey = ''logging.googleapis.com/sourceLocation''"

text \<open>
  Lines 65 to 69 of \<^verbatim>\<open>formatter.go\<close>: the function and file strings, replaced by the
  prettyfier's when one is configured.
\<close>

definition callerStrings :: "Formatter \<Rightarrow> frame \<Rightarrow> string \<times> string" where
  "callerStrings f c =
     (let funcVal = Function c;
          fileVal = File c
      in case CallerPrettyfier f of
           Some p \<Rightarrow> p c
         | None \<Rightarrow> (funcVal, fileVal))"

text \<open>
  Lines 71 to 76 of the second file: the same, with \<^verbatim>\<open>strings.TrimPrefix\<close> applied to
  the file string first. The prettyfier is called on the caller frame itself.
\<close>

definition TrimPrefix :: "string \<Rightarrow> string \<Rightarrow> string" where
  "TrimPrefix s p = (if take (length p) s = p then drop (length p) s else s)"

definition callerStrings_trim :: "Formatter_trim \<Rightarrow> frame \<Rightarrow> string \<times> string" where
  "callerStrings_trim f c =
     (let funcVal = Function c;
          fileVal = File c;
          fileVal = TrimPrefix fileVal (TrimFilenamePrefix f)
      in case CallerPrettyfier f of
           Some p \<Rightarrow> p c
         | None \<Rightarrow> (funcVal, fileVal))"

text \<open>
  Lines 54 to 78 (60 to 85): the document before the field map is merged in.
  \<^verbatim>\<open>HasCaller\<close> implies a caller frame, so the \<open>None\<close> branch is never taken.
\<close>

definition systemFields :: "Formatter \<Rightarrow> entry \<Rightarrow> Fields" where
  "systemFields f e =
     (let data = recordFields f e
      in if HasCaller e
         then (case Caller e of
                 None \<Rightarrow> data
               | Some c \<Rightarrow>
                   (let (funcVal, fileVal) = callerStrings f c
                    in AList.update sourceLocationKey
                         (GMap (sourceLocation funcVal fileVal (Line c))) data))
         else data)"

definition systemFields_trim :: "Formatter_trim \<Rightarrow> entry \<Rightarrow> Fields" where
  "systemFields_trim f e =
     (let data = recordFields f e
      in if HasCaller e
         then (case Caller e of
                 None \<Rightarrow> data
               | Some c \<Rightarrow>
                   (let (funcVal, fileVal) = callerStrings_trim f c
                    in AList.update sourceLocationKey
                         (GMap (sourceLocation funcVal fileVal (Line c))) data))
         else data)"

text \<open>
  The loop over the field map, lines 80 to 92 (87 to 105). \<open>fieldKey\<close> is the renaming
  of a key that is already set in the document. \<open>fieldValue\<close> is the type switch of
  \<^verbatim>\<open>formatter.go\<close>, which turns every error into its text; \<open>fieldValue_trim\<close> is the
  type switch of the second file, which keeps an error that is a \<^verbatim>\<open>json.Marshaler\<close>.
\<close>

definition fieldKey :: "Fields \<Rightarrow> string \<Rightarrow> string" where
  "fieldKey data k = (if map_of data k \<noteq> None then ''fields.'' @ k else k)"

fun fieldValue :: "gvalue \<Rightarrow> gvalue" where
  "fieldValue (GError msg) = GString msg"
| "fieldValue (GErrorMarshaler msg r) = GString msg"
| "fieldValue v = v"

fun fieldValue_trim :: "gvalue \<Rightarrow> gvalue" where
  "fieldValue_trim (GErrorMarshaler msg r) = GErrorMarshaler msg r"
| "fieldValue_trim (GError msg) = GString msg"
| "fieldValue_trim v = v"

definition addField :: "Fields \<Rightarrow> string \<times> gvalue \<Rightarrow> Fields" where
  "addField data kv =
     (let k = fst kv; v = snd kv;
          k = fieldKey data k
      in AList.update k (fieldValue v) data)"

definition addField_trim :: "Fields \<Rightarrow> string \<times> gvalue \<Rightarrow> Fields" where
  "addField_trim data kv =
     (let k = fst kv; v = snd kv;
          k = fieldKey data k
      in AList.update k (fieldValue_trim v) data)"

definition document :: "Formatter \<Rightarrow> entry \<Rightarrow> Fields" where
  "document f e = foldl addField (systemFields f e) (Data e)"

definition document_trim :: "Formatter_trim \<Rightarrow> entry \<Rightarrow> Fields" where
  "document_trim f e = foldl addField_trim (systemFields_trim f e) (Data e)"

section \<open>The JSON encoder\<close>

text \<open>
  \<^verbatim>\<open>encoding/json\<close> is the standard library's, not this package's. The model below
  follows its documented behaviour on the values above: an object's keys are sorted
  bytewise, a string is quoted with the encoder's escapes (HTML-safe, as
  \<^verbatim>\<open>json.NewEncoder\<close> sets it; control characters other than newline, carriage return
  and tab as \<^verbatim>\<open>\u00XX\<close>; bytes from 0x80 on are taken to be valid UTF-8 and copied),
  an integer is written in decimal, a value of an unsupported type and a failing
  \<^verbatim>\<open>MarshalJSON\<close> end the encoding with an error, and an error value of the standard
  library, a pointer to a struct without exported fields, is written as \<^verbatim>\<open>{}\<close>.
  With \<^verbatim>\<open>SetIndent("", "  ")\<close> every member of a non-empty object starts a line, indented
  by two spaces for each level of nesting.
\<close>

definition hexDigit :: "nat \<Rightarrow> char" where
  "hexDigit n = ''0123456789abcdef'' ! (n mod 16)"

definition escapeByte :: "char \<Rightarrow> string" where
  "escapeByte c =
     (if c = CHR 0x22 \<or> c = CHR 0x5C then [CHR 0x5C, c]
      else if c = CHR 0x0A then [CHR 0x5C, CHR ''n'']
      else if c = CHR 0x0D then [CHR 0x5C, CHR ''r'']
      else if c = CHR 0x09 then [CHR 0x5C, CHR ''t'']
      else if of_char c < (0x20 :: nat) \<or> c = CHR ''<'' \<or> c = CHR ''>'' \<or> c = CHR ''&''
      then [CHR 0x5C, CHR ''u'', CHR ''0'', CHR ''0'',
            hexDigit (of_char c div 16), hexDigit (of_char c mod 16)]
      else [c])"

definition quote :: "string \<Rightarrow> string" where
  "quote s = CHR 0x22 # concat (map escapeByte s) @ [CHR 0x22]"

fun digits :: "nat \<Rightarrow> string" where
  "digits n = (if n < 10 then [hexDigit n] else digits (n div 10) @ [hexDigit (n mod 10)])"

definition formatInt :: "int \<Rightarrow> string" where
  "formatInt i = (if i < 0 then CHR ''-'' # digits (nat (- i)) else digits (nat i))"

fun joinWith :: "string \<Rightarrow> string list \<Rightarrow> string" where
  "joinWith sep [] = []"
| "joinWith sep [x] = x"
| "joinWith sep (x # y # ys) = x @ sep @ joinWith sep (y # ys)"

definition newline :: "nat \<Rightarrow> string" where
  "newline d = CHR 0x0A # concat (replicate d ''  '')"

definition object :: "bool \<Rightarrow> nat \<Rightarrow> (string \<times> string) list \<Rightarrow> string" where
  "object pretty d ms =
     (if \<not> pretty
      then ''{'' @ joinWith '','' (map (\<lambda>(k, s). quote k @ '':'' @ s) ms) @ ''}''
      else if ms = [] then ''{}''
      else ''{'' @ newline (Suc d)
           @ joinWith ('','' @ newline (Suc d)) (map (\<lambda>(k, s). quote k @ '': '' @ s) ms)
           @ newline d @ ''}'')"

text \<open>The members of an object in key order: the first that fails ends the encoding.\<close>

fun members :: "(string \<times> (json_error + string)) list \<Rightarrow> json_error + (string \<times> string) list" where
  "members [] = Inr []"
| "members ((k, r) # rest) =
     (case r of
        Inl er \<Rightarrow> Inl er
      | Inr s \<Rightarrow> (case members rest of Inl er \<Rightarrow> Inl er | Inr ms \<Rightarrow> Inr ((k, s) # ms)))"

primrec marshal :: "gvalue \<Rightarrow> bool \<Rightarrow> nat \<Rightarrow> json_error + string" where
  "marshal GNil = (\<lambda>pretty d. Inr ''null'')"
| "marshal (GBool b) = (\<lambda>pretty d. Inr (if b then ''true'' else ''false''))"
| "marshal (GInt i) = (\<lambda>pretty d. Inr (formatInt i))"
| "marshal (GString s) = (\<lambda>pretty d. Inr (quote s))"
| "marshal (GMap ms) = (\<lambda>pretty d.
     case members (map (\<lambda>(k, m). (k, m pretty (Suc d)))
                    (sort_key fst (map (map_prod id marshal) ms))) of
       Inl er \<Rightarrow> Inl er
     | Inr kvs \<Rightarrow> Inr (object pretty d kvs))"
| "marshal (GError msg) = (\<lambda>pretty d. Inr ''{}'')"
| "marshal (GErrorMarshaler msg r) = (\<lambda>pretty d.
     case map_sum id marshal r of
       Inl er \<Rightarrow> Inl er
     | Inr m \<Rightarrow> m pretty d)"
| "marshal (GUnsupported t) = (\<lambda>pretty d. Inl (UnsupportedTypeError t))"

fun Error_text :: "json_error \<Rightarrow> string" where
  "Error_text (UnsupportedTypeError t) = ''json: unsupported type: '' @ t"
| "Error_text (MarshalerError t msg) =
     ''json: error calling MarshalJSON for type '' @ t @ '': '' @ msg"

text \<open>
  \<^verbatim>\<open>Encoder.Encode\<close> on a \<^verbatim>\<open>bytes.Buffer\<close> holding \<open>b\<close>: the JSON text followed by a
  newline is appended in one write; when the encoding fails nothing is written.
\<close>

definition Encode :: "bool \<Rightarrow> bytes \<Rightarrow> Fields \<Rightarrow> bytes \<times> json_error option" where
  "Encode pretty b data =
     (case marshal (GMap data) pretty 0 of
        Inl er \<Rightarrow> (b, Some er)
      | Inr js \<Rightarrow> (b @ js @ [CHR 0x0A], None))"

section \<open>Format\<close>

text \<open>
  What a call of \<^verbatim>\<open>Format\<close> leaves behind: the returned byte slice and error
  (\<open>None\<close> for nil; an error is given by its text), and the entry, whose buffer the call
  has written to.
\<close>

record outcome =
  ret_bytes :: "bytes option"
  ret_error :: "string option"
  entry_after :: entry

text \<open>Lines 94 to 109 of \<^verbatim>\<open>formatter.go\<close> (107 to 122 of the second file).\<close>

definition encodeEntry :: "bool \<Rightarrow> entry \<Rightarrow> Fields \<Rightarrow> outcome" where
  "encodeEntry pretty e data =
     (let b = (case Buffer e of Some b \<Rightarrow> b | None \<Rightarrow> []);
          (b, err) = Encode pretty b data;
          e' = (if Buffer e \<noteq> None then e\<lparr>Buffer := Some b\<rparr> else e)
      in case err of
           Some er \<Rightarrow>
             \<lparr>ret_bytes = None,
              ret_error = Some (''failed to marshal fields to JSON, '' @ Error_text er),
              entry_after = e'\<rparr>
         | None \<Rightarrow> \<lparr>ret_bytes = Some b, ret_error = None, entry_after = e'\<rparr>)"

definition Format :: "Formatter \<Rightarrow> entry \<Rightarrow> outcome" where
  "Format f e = encodeEntry (PrettyPrint f) e (document f e)"

definition Format_trim :: "Formatter_trim \<Rightarrow> entry \<Rightarrow> outcome" where
  "Format_trim f e = encodeEntry (PrettyPrint f) e (document_trim f e)"

text \<open>\<^verbatim>\<open>strings.Contains\<close>, which the package's tests apply to the output.\<close>

fun Contains :: "string \<Rightarrow> string \<Rightarrow> bool" where
  "Contains [] substr = (substr = [])"
| "Contains (c # cs) substr = (take (length substr) (c # cs) = substr \<or> Contains cs substr)"

text \<open>
  The output holds, somewhere, the member with key \<open>k\<close> and value text \<open>s\<close> as the
  encoder writes a member.
\<close>

definition hasMember :: "bytes \<Rightarrow> bool \<Rightarrow> string \<Rightarrow> string \<Rightarrow> bool" where
  "hasMember out pretty k s = Contains out (quote k @ (if pretty then '': '' else '':'') @ s)"

section \<open>Sample entries and formatters\<close>

text \<open>
  Concrete inputs, on which the theorems below are instantiated and the model is run.
\<close>

definition sample_caller :: frame where
  "sample_caller = \<lparr>Function = ''main.run'', File = ''/src/app/main.go'', Line = 42\<rparr>"

definition sample_entry :: entry where
  "sample_entry =
     \<lparr>Logger = Some \<lparr>ReportCaller = True\<rparr>,
      Data = [(''message'', GString ''user text''),
              (''cause'', GErrorMarshaler ''boom'' (Inr (GMap [(''code'', GInt 7)]))),
              (''error'', GError ''wild walrus'')],
      Time = \<lparr>Unix = 1600000000, Nanosecond = 5\<rparr>,
      Level = InfoLevel,
      Caller = Some sample_caller,
      Message = ''hello'',
      Buffer = Some ''old''\<rparr>"

definition plain_formatter :: Formatter where
  "plain_formatter = \<lparr>DisableTimestamp = False, CallerPrettyfier = None, PrettyPrint = False\<rparr>"

definition trim_formatter :: Formatter_trim where
  "trim_formatter =
     \<lparr>DisableTimestamp = False, CallerPrettyfier = None, PrettyPrint = False,
      TrimFilenamePrefix = ''/src/app/main.go''\<rparr>"

definition silent_formatter :: Formatter where
  "silent_formatter =
     \<lparr>DisableTimestamp = False, CallerPrettyfier = Some (\<lambda>c. ('''', '''')),
      PrettyPrint = True\<rparr>"

definition silent_formatter_trim :: Formatter_trim where
  "silent_formatter_trim =
     \<lparr>DisableTimestamp = False, CallerPrettyfier = Some (\<lambda>c. ('''', '''')),
      PrettyPrint = True, TrimFilenamePrefix = ''''\<rparr>"

definition clash_entry :: "Fields \<Rightarrow> entry" where
  "clash_entry fs =
     \<lparr>Logger = None, Data = fs, Time = \<lparr>Unix = 0, Nanosecond = 0\<rparr>, Level = InfoLevel,
      Caller = None, Message = ''hello'', Buffer = None\<rparr>"

section \<open>Auxiliary facts\<close>

lemmas level_defs =
  PanicLevel_def FatalLevel_def ErrorLevel_def WarnLevel_def InfoLevel_def
  DebugLevel_def TraceLevel_def

declare digits.simps [simp del]

lemmas eval_simps =
  Format_def Format_trim_def encodeEntry_def Encode_def document_def document_trim_def
  systemFields_def systemFields_trim_def recordFields_def timestampValue_def sourceLocation_def
  sourceLocationKey_def callerStrings_def callerStrings_trim_def TrimPrefix_def HasCaller_def
  addField_def addField_trim_def fieldKey_def object_def quote_def escapeByte_def hexDigit_def
  formatInt_def digits.simps newline_def stackdriverLevel_def Level_String_def level_defs Let_def
  sample_caller_def sample_entry_def plain_formatter_def trim_formatter_def
  silent_formatter_def silent_formatter_trim_def clash_entry_def

subsection \<open>The loop over the field map\<close>

lemma map_of_addField:
  "map_of (addField d (k, v)) = (map_of d)(fieldKey d k \<mapsto> fieldValue v)"
  by (simp add: addField_def Let_def update_conv')

lemma map_of_addField_trim:
  "map_of (addField_trim d (k, v)) = (map_of d)(fieldKey d k \<mapsto> fieldValue_trim v)"
  by (simp add: addField_trim_def Let_def update_conv')

lemma fieldKey_fresh:
  assumes "map_of d s = Some x" and "''fields.'' @ k \<noteq> s"
  shows "fieldKey d k \<noteq> s"
  using assms by (auto simp: fieldKey_def)

lemma loop_keeps:
  assumes step: "\<And>d k v. map_of (step d (k, v)) = (map_of d)(fieldKey d k \<mapsto> g v)"
  shows "map_of d s = Some x \<Longrightarrow> \<forall>j \<in> fst ` set xs. ''fields.'' @ j \<noteq> s
    \<Longrightarrow> map_of (foldl step d xs) s = Some x"
proof (induction xs arbitrary: d)
  case Nil
  then show ?case by simp
next
  case (Cons kv xs)
  obtain k v where kv: "kv = (k, v)" by (cases kv)
  from Cons.prems have "fieldKey d k \<noteq> s"
    by (intro fieldKey_fresh) (auto simp: kv)
  then have "map_of (step d kv) s = Some x"
    using Cons.prems(1) by (simp add: kv step)
  moreover have "\<forall>j \<in> fst ` set xs. ''fields.'' @ j \<noteq> s"
    using Cons.prems(2) by simp
  ultimately show ?case
    using Cons.IH by simp
qed

lemma loop_dom_upper:
  assumes step: "\<And>d k v. map_of (step d (k, v)) = (map_of d)(fieldKey d k \<mapsto> g v)"
  shows "dom (map_of (foldl step d xs))
    \<subseteq> dom (map_of d) \<union> fst ` set xs \<union> (\<lambda>j. ''fields.'' @ j) ` fst ` set xs"
proof (induction xs arbitrary: d)
  case Nil
  then show ?case by simp
next
  case (Cons kv xs)
  obtain k v where kv: "kv = (k, v)" by (cases kv)
  have "dom (map_of (step d kv)) \<subseteq> insert k (insert (''fields.'' @ k) (dom (map_of d)))"
    by (auto simp: kv step fieldKey_def split: if_splits)
  with Cons.IH [of "step d kv"] show ?case
    by (auto simp: kv)
qed

lemma loop_dom_lower:
  assumes step: "\<And>d k v. map_of (step d (k, v)) = (map_of d)(fieldKey d k \<mapsto> g v)"
  shows "dom (map_of d) \<subseteq> dom (map_of (foldl step d xs))"
proof (induction xs arbitrary: d)
  case Nil
  then show ?case by simp
next
  case (Cons kv xs)
  obtain k v where kv: "kv = (k, v)" by (cases kv)
  have "dom (map_of d) \<subseteq> dom (map_of (step d kv))"
    by (auto simp: kv step)
  with Cons.IH [of "step d kv"] show ?case
    by auto
qed

lemma loop_value:
  assumes step: "\<And>d k v. map_of (step d (k, v)) = (map_of d)(fieldKey d k \<mapsto> g v)"
    and dist: "distinct (map fst xs)"
    and mem: "(k, v) \<in> set xs"
    and plain: "\<forall>j \<in> fst ` set xs. ''fields.'' @ j \<noteq> k"
  shows "map_of (foldl step d xs) (fieldKey d k) = Some (g v)"
proof -
  from mem obtain pre post where xs: "xs = pre @ (k, v) # post"
    by (auto dest: split_list)
  define d1 where "d1 = foldl step d pre"
  have k_pre: "k \<notin> fst ` set pre" and k_post: "k \<notin> fst ` set post"
    using dist by (auto simp: xs)
  have "k \<notin> (\<lambda>j. ''fields.'' @ j) ` fst ` set pre"
    using plain by (auto simp: xs)
  with k_pre loop_dom_upper [of step g d pre, OF step]
  have "k \<in> dom (map_of d1) \<Longrightarrow> k \<in> dom (map_of d)"
    by (auto simp: d1_def)
  moreover from loop_dom_lower [of step g d pre, OF step]
  have "k \<in> dom (map_of d) \<Longrightarrow> k \<in> dom (map_of d1)"
    by (auto simp: d1_def)
  ultimately have key: "fieldKey d1 k = fieldKey d k"
    by (auto simp: fieldKey_def)
  have here: "map_of (step d1 (k, v)) (fieldKey d k) = Some (g v)"
    by (simp add: step key)
  have later: "\<forall>j \<in> fst ` set post. ''fields.'' @ j \<noteq> fieldKey d k"
  proof
    fix j assume j: "j \<in> fst ` set post"
    then have "j \<noteq> k" using k_post by auto
    moreover from j plain have "''fields.'' @ j \<noteq> k" by (auto simp: xs)
    ultimately show "''fields.'' @ j \<noteq> fieldKey d k"
      by (simp add: fieldKey_def)
  qed
  have "map_of (foldl step (step d1 (k, v)) post) (fieldKey d k) = Some (g v)"
    by (rule loop_keeps [of step g, OF step here later])
  then show ?thesis
    by (simp add: xs d1_def)
qed

subsection \<open>The keys set from the record\<close>

lemma map_of_recordFields:
  "map_of (recordFields f e) =
     (if DisableTimestamp f then Map.empty else [''timestamp'' \<mapsto> timestampValue e])
       (''message'' \<mapsto> GString (Message e),
        ''severity'' \<mapsto> GString (stackdriverLevel (Level e)),
        ''level'' \<mapsto> GString (Level_String (Level e)))"
  by (simp add: recordFields_def Let_def update_conv')

lemma HasCaller_Caller: "HasCaller e \<Longrightarrow> \<exists>c. Caller e = Some c"
  by (auto simp: HasCaller_def split: option.splits)

lemma map_of_systemFields:
  "map_of (systemFields f e) =
     (if HasCaller e
      then (map_of (recordFields f e))
             (sourceLocationKey \<mapsto>
                GMap (sourceLocation (fst (callerStrings f (the (Caller e))))
                        (snd (callerStrings f (the (Caller e)))) (Line (the (Caller e)))))
      else map_of (recordFields f e))"
  by (auto simp: systemFields_def Let_def update_conv' split: option.splits prod.splits
      dest: HasCaller_Caller)

lemma map_of_systemFields_trim:
  "map_of (systemFields_trim f e) =
     (if HasCaller e
      then (map_of (recordFields f e))
             (sourceLocationKey \<mapsto>
                GMap (sourceLocation (fst (callerStrings_trim f (the (Caller e))))
                        (snd (callerStrings_trim f (the (Caller e)))) (Line (the (Caller e)))))
      else map_of (recordFields f e))"
  by (auto simp: systemFields_trim_def Let_def update_conv' split: option.splits prod.splits
      dest: HasCaller_Caller)

lemma fields_prefix_reserved [simp]:
  "''fields.'' @ j \<noteq> ''timestamp''"
  "''fields.'' @ j \<noteq> ''message''"
  "''fields.'' @ j \<noteq> ''severity''"
  "''fields.'' @ j \<noteq> ''level''"
  "CHR ''f'' # t \<noteq> sourceLocationKey"
  by (simp_all add: sourceLocationKey_def)

lemma document_keeps:
  assumes "map_of (systemFields f e) s = Some x" and "\<forall>j. ''fields.'' @ j \<noteq> s"
  shows "map_of (document f e) s = Some x"
  unfolding document_def
  by (rule loop_keeps [of addField fieldValue, OF map_of_addField assms(1)])
    (use assms(2) in simp)

lemma document_trim_keeps:
  assumes "map_of (systemFields_trim f e) s = Some x" and "\<forall>j. ''fields.'' @ j \<noteq> s"
  shows "map_of (document_trim f e) s = Some x"
  unfolding document_trim_def
  by (rule loop_keeps [of addField_trim fieldValue_trim, OF map_of_addField_trim assms(1)])
    (use assms(2) in simp)

lemma severity_document:
  "map_of (document f e) ''severity'' = Some (GString (stackdriverLevel (Level e)))"
  by (rule document_keeps) (simp_all add: map_of_systemFields map_of_recordFields sourceLocationKey_def)

lemma severity_document_trim:
  "map_of (document_trim f e) ''severity'' = Some (GString (stackdriverLevel (Level e)))"
  by (rule document_trim_keeps)
    (simp_all add: map_of_systemFields_trim map_of_recordFields sourceLocationKey_def)

subsection \<open>Collisions with keys set from the record\<close>

lemma document_collision:
  assumes "distinct (map fst (Data e))" and "(k, v) \<in> set (Data e)"
    and "map_of (systemFields f e) k = Some x" and "\<forall>j. ''fields.'' @ j \<noteq> k"
  shows "map_of (document f e) (''fields.'' @ k) = Some (fieldValue v)
    \<and> map_of (document f e) k = Some x"
proof -
  have "map_of (foldl addField (systemFields f e) (Data e)) (fieldKey (systemFields f e) k)
      = Some (fieldValue v)"
    by (rule loop_value [of addField fieldValue, OF map_of_addField assms(1,2)])
      (use assms(4) in simp)
  then show ?thesis
    using document_keeps [OF assms(3,4)] assms(3) by (simp add: document_def fieldKey_def)
qed

lemma document_trim_collision:
  assumes "distinct (map fst (Data e))" and "(k, v) \<in> set (Data e)"
    and "map_of (systemFields_trim f e) k = Some x" and "\<forall>j. ''fields.'' @ j \<noteq> k"
  shows "map_of (document_trim f e) (''fields.'' @ k) = Some (fieldValue_trim v)
    \<and> map_of (document_trim f e) k = Some x"
proof -
  have "map_of (foldl addField_trim (systemFields_trim f e) (Data e))
          (fieldKey (systemFields_trim f e) k) = Some (fieldValue_trim v)"
    by (rule loop_value [of addField_trim fieldValue_trim, OF map_of_addField_trim assms(1,2)])
      (use assms(4) in simp)
  then show ?thesis
    using document_trim_keeps [OF assms(3,4)] assms(3)
    by (simp add: document_trim_def fieldKey_def)
qed

lemma sourceLocationKey_other [simp]:
  "sourceLocationKey \<noteq> ''timestamp''" "sourceLocationKey \<noteq> ''message''"
  "sourceLocationKey \<noteq> ''severity''" "sourceLocationKey \<noteq> ''level''"
  "''timestamp'' \<noteq> sourceLocationKey" "''message'' \<noteq> sourceLocationKey"
  "''severity'' \<noteq> sourceLocationKey" "''level'' \<noteq> sourceLocationKey"
  by (simp_all add: sourceLocationKey_def)

lemma systemFields_values:
  "map_of (systemFields f e) ''message'' = Some (GString (Message e))"
  "map_of (systemFields f e) ''severity'' = Some (GString (stackdriverLevel (Level e)))"
  "map_of (systemFields f e) ''level'' = Some (GString (Level_String (Level e)))"
  "\<not> DisableTimestamp f \<Longrightarrow> map_of (systemFields f e) ''timestamp'' = Some (timestampValue e)"
  "DisableTimestamp f \<Longrightarrow> map_of (systemFields f e) ''timestamp'' = None"
  "HasCaller e \<Longrightarrow> Caller e = Some c \<Longrightarrow> map_of (systemFields f e) sourceLocationKey =
     Some (GMap (sourceLocation (fst (callerStrings f c)) (snd (callerStrings f c)) (Line c)))"
  "\<not> HasCaller e \<Longrightarrow> map_of (systemFields f e) sourceLocationKey = None"
  by (simp_all add: map_of_systemFields map_of_recordFields)

lemma systemFields_trim_values:
  "map_of (systemFields_trim f e) ''message'' = Some (GString (Message e))"
  "map_of (systemFields_trim f e) ''severity'' = Some (GString (stackdriverLevel (Level e)))"
  "map_of (systemFields_trim f e) ''level'' = Some (GString (Level_String (Level e)))"
  "\<not> DisableTimestamp f \<Longrightarrow> map_of (systemFields_trim f e) ''timestamp'' = Some (timestampValue e)"
  "DisableTimestamp f \<Longrightarrow> map_of (systemFields_trim f e) ''timestamp'' = None"
  "HasCaller e \<Longrightarrow> Caller e = Some c \<Longrightarrow> map_of (systemFields_trim f e) sourceLocationKey =
     Some (GMap (sourceLocation (fst (callerStrings_trim f c)) (snd (callerStrings_trim f c)) (Line c)))"
  "\<not> HasCaller e \<Longrightarrow> map_of (systemFields_trim f e) sourceLocationKey = None"
  by (simp_all add: map_of_systemFields_trim map_of_recordFields)

lemma collision_formatter_go:
  assumes "distinct (map fst (Data e))" and "(k, v) \<in> set (Data e)"
  shows "(k = ''message'' \<longrightarrow>
        map_of (document f e) ''fields.message'' = Some (fieldValue v)
      \<and> map_of (document f e) ''message'' = Some (GString (Message e)))
    \<and> (k = ''severity'' \<longrightarrow>
        map_of (document f e) ''fields.severity'' = Some (fieldValue v)
      \<and> map_of (document f e) ''severity'' = Some (GString (stackdriverLevel (Level e))))
    \<and> (k = ''level'' \<longrightarrow>
        map_of (document f e) ''fields.level'' = Some (fieldValue v)
      \<and> map_of (document f e) ''level'' = Some (GString (Level_String (Level e))))
    \<and> (k = ''timestamp'' \<and> \<not> DisableTimestamp f \<longrightarrow>
        map_of (document f e) ''fields.timestamp'' = Some (fieldValue v)
      \<and> map_of (document f e) ''timestamp'' = Some (timestampValue e))
    \<and> (k = sourceLocationKey \<and> HasCaller e \<longrightarrow>
        map_of (document f e) (''fields.'' @ sourceLocationKey) = Some (fieldValue v)
      \<and> (\<exists>c. Caller e = Some c \<and> map_of (document f e) sourceLocationKey =
            Some (GMap (sourceLocation (fst (callerStrings f c)) (snd (callerStrings f c))
              (Line c)))))"
proof (intro conjI impI)
  assume k: "k = ''message''"
  from document_collision [OF assms systemFields_values(1) [unfolded k [symmetric]]]
  show "map_of (document f e) ''fields.message'' = Some (fieldValue v)"
    and "map_of (document f e) ''message'' = Some (GString (Message e))"
    by (simp_all add: k)
next
  assume k: "k = ''severity''"
  from document_collision [OF assms systemFields_values(2) [unfolded k [symmetric]]]
  show "map_of (document f e) ''fields.severity'' = Some (fieldValue v)"
    and "map_of (document f e) ''severity'' = Some (GString (stackdriverLevel (Level e)))"
    by (simp_all add: k)
next
  assume k: "k = ''level''"
  from document_collision [OF assms systemFields_values(3) [unfolded k [symmetric]]]
  show "map_of (document f e) ''fields.level'' = Some (fieldValue v)"
    and "map_of (document f e) ''level'' = Some (GString (Level_String (Level e)))"
    by (simp_all add: k)
next
  assume k: "k = ''timestamp'' \<and> \<not> DisableTimestamp f"
  then have "map_of (systemFields f e) k = Some (timestampValue e)"
    by (simp add: systemFields_values)
  from document_collision [OF assms this]
  show "map_of (document f e) ''fields.timestamp'' = Some (fieldValue v)"
    and "map_of (document f e) ''timestamp'' = Some (timestampValue e)"
    using k by simp_all
next
  assume k: "k = sourceLocationKey \<and> HasCaller e"
  then obtain c where c: "Caller e = Some c"
    by (auto dest: HasCaller_Caller)
  with k have "map_of (systemFields f e) k =
      Some (GMap (sourceLocation (fst (callerStrings f c)) (snd (callerStrings f c)) (Line c)))"
    by (simp add: systemFields_values)
  from document_collision [OF assms this]
  show "map_of (document f e) (''fields.'' @ sourceLocationKey) = Some (fieldValue v)"
    and "\<exists>c. Caller e = Some c \<and> map_of (document f e) sourceLocationKey =
            Some (GMap (sourceLocation (fst (callerStrings f c)) (snd (callerStrings f c))
              (Line c)))"
    using k c by (simp_all add: sourceLocationKey_def)
qed

lemma collision_trim:
  assumes "distinct (map fst (Data e))" and "(k, v) \<in> set (Data e)"
  shows "(k = ''message'' \<longrightarrow>
        map_of (document_trim f e) ''fields.message'' = Some (fieldValue_trim v)
      \<and> map_of (document_trim f e) ''message'' = Some (GString (Message e)))
    \<and> (k = ''severity'' \<longrightarrow>
        map_of (document_trim f e) ''fields.severity'' = Some (fieldValue_trim v)
      \<and> map_of (document_trim f e) ''severity'' = Some (GString (stackdriverLevel (Level e))))
    \<and> (k = ''level'' \<longrightarrow>
        map_of (document_trim f e) ''fields.level'' = Some (fieldValue_trim v)
      \<and> map_of (document_trim f e) ''level'' = Some (GString (Level_String (Level e))))
    \<and> (k = ''timestamp'' \<and> \<not> DisableTimestamp f \<longrightarrow>
        map_of (document_trim f e) ''fields.timestamp'' = Some (fieldValue_trim v)
      \<and> map_of (document_trim f e) ''timestamp'' = Some (timestampValue e))
    \<and> (k = sourceLocationKey \<and> HasCaller e \<longrightarrow>
        map_of (document_trim f e) (''fields.'' @ sourceLocationKey) = Some (fieldValue_trim v)
      \<and> (\<exists>c. Caller e = Some c \<and> map_of (document_trim f e) sourceLocationKey =
            Some (GMap (sourceLocation (fst (callerStrings_trim f c)) (snd (callerStrings_trim f c))
              (Line c)))))"
proof (intro conjI impI)
  assume k: "k = ''message''"
  from document_trim_collision [OF assms systemFields_trim_values(1) [unfolded k [symmetric]]]
  show "map_of (document_trim f e) ''fields.message'' = Some (fieldValue_trim v)"
    and "map_of (document_trim f e) ''message'' = Some (GString (Message e))"
    by (simp_all add: k)
next
  assume k: "k = ''severity''"
  from document_trim_collision [OF assms systemFields_trim_values(2) [unfolded k [symmetric]]]
  show "map_of (document_trim f e) ''fields.severity'' = Some (fieldValue_trim v)"
    and "map_of (document_trim f e) ''severity'' = Some (GString (stackdriverLevel (Level e)))"
    by (simp_all add: k)
next
  assume k: "k = ''level''"
  from document_trim_collision [OF assms systemFields_trim_values(3) [unfolded k [symmetric]]]
  show "map_of (document_trim f e) ''fields.level'' = Some (fieldValue_trim v)"
    and "map_of (document_trim f e) ''level'' = Some (GString (Level_String (Level e)))"
    by (simp_all add: k)
next
  assume k: "k = ''timestamp'' \<and> \<not> DisableTimestamp f"
  then have "map_of (systemFields_trim f e) k = Some (timestampValue e)"
    by (simp add: systemFields_trim_values)
  from document_trim_collision [OF assms this]
  show "map_of (document_trim f e) ''fields.timestamp'' = Some (fieldValue_trim v)"
    and "map_of (document_trim f e) ''timestamp'' = Some (timestampValue e)"
    using k by simp_all
next
  assume k: "k = sourceLocationKey \<and> HasCaller e"
  then obtain c where c: "Caller e = Some c"
    by (auto dest: HasCaller_Caller)
  with k have "map_of (systemFields_trim f e) k =
      Some (GMap (sourceLocation (fst (callerStrings_trim f c)) (snd (callerStrings_trim f c)) (Line c)))"
    by (simp add: systemFields_trim_values)
  from document_trim_collision [OF assms this]
  show "map_of (document_trim f e) (''fields.'' @ sourceLocationKey) = Some (fieldValue_trim v)"
    and "\<exists>c. Caller e = Some c \<and> map_of (document_trim f e) sourceLocationKey =
            Some (GMap (sourceLocation (fst (callerStrings_trim f c)) (snd (callerStrings_trim f c))
              (Line c)))"
    using k c by (simp_all add: sourceLocationKey_def)
qed

subsection \<open>Field values, timestamp and source location\<close>

lemma loop_never:
  assumes step: "\<And>d k v. map_of (step d (k, v)) = (map_of d)(fieldKey d k \<mapsto> g v)"
    and g: "\<And>v. g v \<noteq> bad"
  shows "\<forall>s. map_of d s \<noteq> Some bad \<Longrightarrow> \<forall>s. map_of (foldl step d xs) s \<noteq> Some bad"
proof (induction xs arbitrary: d)
  case Nil
  then show ?case by simp
next
  case (Cons kv xs)
  obtain k v where kv: "kv = (k, v)" by (cases kv)
  have "\<forall>s. map_of (step d kv) s \<noteq> Some bad"
    using Cons.prems g [of v] by (auto simp: kv step)
  then show ?case
    using Cons.IH by simp
qed

lemma loop_absent:
  assumes step: "\<And>d k v. map_of (step d (k, v)) = (map_of d)(fieldKey d k \<mapsto> g v)"
    and "map_of d s = None" and "s \<notin> fst ` set xs" and "\<forall>j. ''fields.'' @ j \<noteq> s"
  shows "map_of (foldl step d xs) s = None"
  using loop_dom_upper [of step g d xs, OF step] assms(2-4) by (auto simp: domIff)

lemma fieldValue_not_error: "fieldValue v \<noteq> GError m"
  by (cases v) simp_all

lemma fieldValue_trim_not_error: "fieldValue_trim v \<noteq> GError m"
  by (cases v) simp_all

lemma systemFields_not_error: "map_of (systemFields f e) s \<noteq> Some (GError m)"
  by (simp add: map_of_systemFields map_of_recordFields timestampValue_def)

lemma systemFields_trim_not_error: "map_of (systemFields_trim f e) s \<noteq> Some (GError m)"
  by (simp add: map_of_systemFields_trim map_of_recordFields timestampValue_def)

lemma document_never_error: "map_of (document f e) s \<noteq> Some (GError m)"
  using loop_never [of addField fieldValue "GError m" "systemFields f e" "Data e",
      OF map_of_addField fieldValue_not_error]
  by (simp add: document_def systemFields_not_error)

lemma document_trim_never_error: "map_of (document_trim f e) s \<noteq> Some (GError m)"
  using loop_never [of addField_trim fieldValue_trim "GError m" "systemFields_trim f e" "Data e",
      OF map_of_addField_trim fieldValue_trim_not_error]
  by (simp add: document_trim_def systemFields_trim_not_error)

lemma document_field:
  assumes "distinct (map fst (Data e))" and "(k, v) \<in> set (Data e)"
    and "\<forall>j \<in> fst ` set (Data e). ''fields.'' @ j \<noteq> k"
  shows "map_of (document f e) (fieldKey (systemFields f e) k) = Some (fieldValue v)"
  unfolding document_def
  by (rule loop_value [of addField fieldValue, OF map_of_addField assms])

lemma document_trim_field:
  assumes "distinct (map fst (Data e))" and "(k, v) \<in> set (Data e)"
    and "\<forall>j \<in> fst ` set (Data e). ''fields.'' @ j \<noteq> k"
  shows "map_of (document_trim f e) (fieldKey (systemFields_trim f e) k)
    = Some (fieldValue_trim v)"
  unfolding document_trim_def
  by (rule loop_value [of addField_trim fieldValue_trim, OF map_of_addField_trim assms])

lemma timestamp_enabled:
  "\<not> DisableTimestamp f \<Longrightarrow> map_of (document f e) ''timestamp'' = Some (timestampValue e)"
  by (rule document_keeps) (simp_all add: systemFields_values)

lemma timestamp_trim_enabled:
  "\<not> DisableTimestamp f \<Longrightarrow> map_of (document_trim f e) ''timestamp'' = Some (timestampValue e)"
  by (rule document_trim_keeps) (simp_all add: systemFields_trim_values)

lemma timestamp_disabled:
  assumes "distinct (map fst (Data e))" and "DisableTimestamp f"
  shows "map_of (document f e) ''timestamp'' = map_option fieldValue (map_of (Data e) ''timestamp'')"
proof (cases "map_of (Data e) ''timestamp''")
  case None
  then have "''timestamp'' \<notin> fst ` set (Data e)"
    by (simp add: map_of_eq_None_iff)
  then show ?thesis
    using None assms(2)
    by (simp add: document_def systemFields_values
        loop_absent [of addField fieldValue, OF map_of_addField])
next
  case (Some v)
  then have "(''timestamp'', v) \<in> set (Data e)"
    by (rule map_of_SomeD)
  from document_field [OF assms(1) this, of f] show ?thesis
    using Some assms(2) by (simp add: fieldKey_def systemFields_values)
qed

lemma timestamp_trim_disabled:
  assumes "distinct (map fst (Data e))" and "DisableTimestamp f"
  shows "map_of (document_trim f e) ''timestamp''
    = map_option fieldValue_trim (map_of (Data e) ''timestamp'')"
proof (cases "map_of (Data e) ''timestamp''")
  case None
  then have "''timestamp'' \<notin> fst ` set (Data e)"
    by (simp add: map_of_eq_None_iff)
  then show ?thesis
    using None assms(2)
    by (simp add: document_trim_def systemFields_trim_values
        loop_absent [of addField_trim fieldValue_trim, OF map_of_addField_trim])
next
  case (Some v)
  then have "(''timestamp'', v) \<in> set (Data e)"
    by (rule map_of_SomeD)
  from document_trim_field [OF assms(1) this, of f] show ?thesis
    using Some assms(2) by (simp add: fieldKey_def systemFields_trim_values)
qed

lemma map_of_sourceLocation:
  "map_of (sourceLocation funcVal fileVal line) =
     (\<lambda>s. if s = ''function'' then (if funcVal = '''' then None else Some (GString funcVal))
          else if s = ''file'' then (if fileVal = '''' then None else Some (GString fileVal))
          else if s = ''line'' then (if fileVal = '''' then None else Some (GInt line))
          else None)"
  by (auto simp: sourceLocation_def Let_def update_conv' fun_eq_iff)

lemma sourceLocation_document:
  assumes "HasCaller e" and "Caller e = Some c"
  shows "map_of (document f e) sourceLocationKey =
    Some (GMap (sourceLocation (fst (callerStrings f c)) (snd (callerStrings f c)) (Line c)))"
proof (rule document_keeps)
  show "map_of (systemFields f e) sourceLocationKey =
    Some (GMap (sourceLocation (fst (callerStrings f c)) (snd (callerStrings f c)) (Line c)))"
    by (simp add: systemFields_values assms)
  show "\<forall>j. ''fields.'' @ j \<noteq> sourceLocationKey"
    by simp
qed

lemma sourceLocation_document_trim:
  assumes "HasCaller e" and "Caller e = Some c"
  shows "map_of (document_trim f e) sourceLocationKey =
    Some (GMap (sourceLocation (fst (callerStrings_trim f c)) (snd (callerStrings_trim f c))
      (Line c)))"
proof (rule document_trim_keeps)
  show "map_of (systemFields_trim f e) sourceLocationKey =
    Some (GMap (sourceLocation (fst (callerStrings_trim f c)) (snd (callerStrings_trim f c))
      (Line c)))"
    by (simp add: systemFields_trim_values assms)
  show "\<forall>j. ''fields.'' @ j \<noteq> sourceLocationKey"
    by simp
qed

subsection \<open>The encoder on the document\<close>

lemma object_ends: "object pretty d ms \<noteq> [] \<and> last (object pretty d ms) = CHR ''}''"
  by (simp add: object_def)

lemma marshal_GMap_ends:
  assumes "marshal (GMap ms) pretty d = Inr js"
  shows "js \<noteq> [] \<and> last js = CHR ''}''"
  using assms object_ends by (auto split: sum.splits)

lemma members_succeed:
  "\<forall>r \<in> snd ` set xs. \<not> isl r \<Longrightarrow> \<not> isl (members xs)"
proof (induction xs)
  case Nil
  then show ?case by simp
next
  case (Cons x xs)
  obtain k r where x: "x = (k, r)" by (cases x)
  from Cons.prems have "\<not> isl r" by (simp add: x)
  moreover from Cons have "\<not> isl (members xs)" by simp
  ultimately show ?case
    by (auto simp: x split: sum.splits)
qed

lemma marshal_GMap_succeeds:
  assumes "\<And>k v. (k, v) \<in> set ms \<Longrightarrow> \<not> isl (marshal v pretty (Suc d))"
  shows "\<not> isl (marshal (GMap ms) pretty d)"
proof -
  let ?xs = "map (\<lambda>(k, m). (k, m pretty (Suc d))) (sort_key fst (map (map_prod id marshal) ms))"
  have "snd ` set ?xs = (\<lambda>v. marshal v pretty (Suc d)) ` snd ` set ms"
    by (force simp: image_iff)
  with assms have "\<forall>r \<in> snd ` set ?xs. \<not> isl r"
    by auto
  then have "\<not> isl (members ?xs)"
    by (rule members_succeed)
  then show ?thesis
    by (auto split: sum.splits)
qed

lemma set_update_subset: "set (AList.update k v al) \<subseteq> insert (k, v) (set al)"
  by (induction al) auto

lemma loop_values:
  "(s, x) \<in> set (foldl addField d xs) \<Longrightarrow> x \<in> snd ` set d \<union> fieldValue ` snd ` set xs"
proof (induction xs arbitrary: d)
  case Nil
  then show ?case by force
next
  case (Cons kv xs)
  have "snd ` set (addField d kv) \<subseteq> insert (fieldValue (snd kv)) (snd ` set d)"
    using set_update_subset [of "fieldKey d (fst kv)" "fieldValue (snd kv)" d]
    by (auto simp: addField_def Let_def)
  with Cons.IH [of "addField d kv"] Cons.prems show ?case
    by auto
qed

lemma loop_trim_values:
  "(s, x) \<in> set (foldl addField_trim d xs)
    \<Longrightarrow> x \<in> snd ` set d \<union> fieldValue_trim ` snd ` set xs"
proof (induction xs arbitrary: d)
  case Nil
  then show ?case by force
next
  case (Cons kv xs)
  have "snd ` set (addField_trim d kv) \<subseteq> insert (fieldValue_trim (snd kv)) (snd ` set d)"
    using set_update_subset [of "fieldKey d (fst kv)" "fieldValue_trim (snd kv)" d]
    by (auto simp: addField_trim_def Let_def)
  with Cons.IH [of "addField_trim d kv"] Cons.prems show ?case
    by auto
qed

lemma sourceLocation_marshals:
  "\<not> isl (marshal (GMap (sourceLocation funcVal fileVal line)) pretty d)"
proof (rule marshal_GMap_succeeds)
  fix k v assume "(k, v) \<in> set (sourceLocation funcVal fileVal line)"
  then have "v = GString funcVal \<or> v = GString fileVal \<or> v = GInt line"
    by (auto simp: sourceLocation_def Let_def split: if_splits)
  then show "\<not> isl (marshal v pretty (Suc d))"
    by auto
qed

lemma timestampValue_marshals: "\<not> isl (marshal (timestampValue e) pretty d)"
  unfolding timestampValue_def by (rule marshal_GMap_succeeds) auto

lemma recordFields_marshal:
  assumes "(k, v) \<in> set (recordFields f e)"
  shows "\<not> isl (marshal v pretty d)"
proof -
  from assms have "v = timestampValue e \<or> (\<exists>s. v = GString s)"
    by (auto simp: recordFields_def Let_def split: if_splits)
  then show ?thesis
    using timestampValue_marshals by auto
qed

lemma systemFields_marshal:
  assumes "(k, v) \<in> set (systemFields f e)"
  shows "\<not> isl (marshal v pretty d)"
proof (cases "HasCaller e")
  case False
  with assms show ?thesis
    by (auto simp: systemFields_def dest: recordFields_marshal)
next
  case True
  then obtain c where c: "Caller e = Some c"
    by (auto dest: HasCaller_Caller)
  from assms True c have "(\<exists>l. v = GMap (sourceLocation (fst l) (snd l) (Line c)))
      \<or> (k, v) \<in> set (recordFields f e)"
    using set_update_subset [of sourceLocationKey _ "recordFields f e"]
    by (fastforce simp: systemFields_def Let_def split: prod.splits)
  then show ?thesis
    using sourceLocation_marshals by (auto dest: recordFields_marshal)
qed

lemma systemFields_trim_marshal:
  assumes "(k, v) \<in> set (systemFields_trim f e)"
  shows "\<not> isl (marshal v pretty d)"
proof (cases "HasCaller e")
  case False
  with assms show ?thesis
    by (auto simp: systemFields_trim_def dest: recordFields_marshal)
next
  case True
  then obtain c where c: "Caller e = Some c"
    by (auto dest: HasCaller_Caller)
  from assms True c have "(\<exists>l. v = GMap (sourceLocation (fst l) (snd l) (Line c)))
      \<or> (k, v) \<in> set (recordFields f e)"
    using set_update_subset [of sourceLocationKey _ "recordFields f e"]
    by (fastforce simp: systemFields_trim_def Let_def split: prod.splits)
  then show ?thesis
    using sourceLocation_marshals by (auto dest: recordFields_marshal)
qed

lemma document_marshals:
  assumes "\<And>k v. (k, v) \<in> set (Data e) \<Longrightarrow> \<not> isl (marshal (fieldValue v) pretty (Suc 0))"
  shows "\<not> isl (marshal (GMap (document f e)) pretty 0)"
proof (rule marshal_GMap_succeeds)
  fix k v assume "(k, v) \<in> set (document f e)"
  then have "v \<in> snd ` set (systemFields f e) \<union> fieldValue ` snd ` set (Data e)"
    unfolding document_def by (rule loop_values)
  then show "\<not> isl (marshal v pretty (Suc 0))"
    using assms by (auto dest: systemFields_marshal)
qed

lemma document_trim_marshals:
  assumes "\<And>k v. (k, v) \<in> set (Data e)
    \<Longrightarrow> \<not> isl (marshal (fieldValue_trim v) pretty (Suc 0))"
  shows "\<not> isl (marshal (GMap (document_trim f e)) pretty 0)"
proof (rule marshal_GMap_succeeds)
  fix k v assume "(k, v) \<in> set (document_trim f e)"
  then have "v \<in> snd ` set (systemFields_trim f e) \<union> fieldValue_trim ` snd ` set (Data e)"
    unfolding document_trim_def by (rule loop_trim_values)
  then show "\<not> isl (marshal v pretty (Suc 0))"
    using assms by (auto dest: systemFields_trim_marshal)
qed

lemma encodeEntry_failure:
  assumes "marshal (GMap data) pretty 0 = Inl er"
  shows "encodeEntry pretty e data =
    \<lparr>ret_bytes = None,
     ret_error = Some (''failed to marshal fields to JSON, '' @ Error_text er),
     entry_after = e\<rparr>"
  using assms by (auto simp: encodeEntry_def Encode_def)

lemma encodeEntry_success:
  assumes "marshal (GMap data) pretty 0 = Inr js"
  shows "encodeEntry pretty e data =
    (case Buffer e of
       Some b \<Rightarrow> \<lparr>ret_bytes = Some (b @ js @ [CHR 0x0A]), ret_error = None,
                  entry_after = e\<lparr>Buffer := Some (b @ js @ [CHR 0x0A])\<rparr>\<rparr>
     | None \<Rightarrow> \<lparr>ret_bytes = Some (js @ [CHR 0x0A]), ret_error = None, entry_after = e\<rparr>)"
  using assms by (auto simp: encodeEntry_def Encode_def split: option.splits)

subsection \<open>The outcome of a call\<close>

lemma encodeEntry_newline:
  assumes "ret_error (encodeEntry pretty e data) = None"
  shows "\<exists>body. ret_bytes (encodeEntry pretty e data) = Some (body @ [CHR 0x0A])
    \<and> body \<noteq> [] \<and> last body = CHR ''}'' \<and> last body \<noteq> CHR 0x0A"
proof (cases "marshal (GMap data) pretty 0")
  case (Inl er)
  with assms show ?thesis
    by (simp add: encodeEntry_failure)
next
  case (Inr js)
  then have js: "js \<noteq> []" "last js = CHR ''}''"
    using marshal_GMap_ends by auto
  show ?thesis
  proof (cases "Buffer e")
    case None
    with Inr js show ?thesis
      by (simp add: encodeEntry_success)
  next
    case (Some b)
    with Inr js have "ret_bytes (encodeEntry pretty e data) = Some ((b @ js) @ [CHR 0x0A])
        \<and> b @ js \<noteq> [] \<and> last (b @ js) = CHR ''}'' \<and> last (b @ js) \<noteq> CHR 0x0A"
      by (simp add: encodeEntry_success)
    then show ?thesis
      by blast
  qed
qed

lemma encodeEntry_error_iff:
  "ret_error (encodeEntry pretty e data) \<noteq> None \<longleftrightarrow> isl (marshal (GMap data) pretty 0)"
  by (cases "marshal (GMap data) pretty 0")
    (simp_all add: encodeEntry_failure encodeEntry_success split: option.splits)

lemma encodeEntry_bytes_iff:
  "ret_bytes (encodeEntry pretty e data) = None \<longleftrightarrow> isl (marshal (GMap data) pretty 0)"
  by (cases "marshal (GMap data) pretty 0")
    (simp_all add: encodeEntry_failure encodeEntry_success split: option.splits)







subsection \<open>Members of the output\<close>

lemma Contains_prefix: "Contains (ys @ zs) ys"
proof (cases "ys @ zs")
  case Nil
  then show ?thesis by simp
next
  case (Cons c cs)
  have "take (length ys) (ys @ zs) = ys" by simp
  then have "take (length ys) (c # cs) = ys" by (simp only: Cons)
  then have "Contains (c # cs) ys" by simp
  then show ?thesis by (simp only: Cons)
qed

lemma Contains_middle: "Contains (xs @ ys @ zs) ys"
  by (induction xs) (auto simp: Contains_prefix)

lemma joinWith_member:
  "x \<in> set xs \<Longrightarrow> \<exists>pre post. joinWith sep xs = pre @ x @ post"
proof (induction sep xs rule: joinWith.induct)
  case (1 sep)
  then show ?case by simp
next
  case (2 sep y)
  then have "joinWith sep [y] = [] @ x @ []" by simp
  then show ?case by blast
next
  case (3 sep y z zs)
  show ?case
  proof (cases "x = y")
    case True
    then have "joinWith sep (y # z # zs) = [] @ x @ (sep @ joinWith sep (z # zs))" by simp
    then show ?thesis by blast
  next
    case False
    with 3 obtain pre post where "joinWith sep (z # zs) = pre @ x @ post" by auto
    then have "joinWith sep (y # z # zs) = (y @ sep @ pre) @ x @ post" by simp
    then show ?thesis by blast
  qed
qed

lemma object_member:
  assumes "(k, s) \<in> set ms"
  shows "\<exists>pre post. object pretty d ms
    = pre @ (quote k @ (if pretty then '': '' else '':'') @ s) @ post"
proof (cases pretty)
  case True
  from assms have "quote k @ '': '' @ s \<in> set (map (\<lambda>(k, s). quote k @ '': '' @ s) ms)"
    by force
  then obtain pre post where
    "joinWith ('','' @ newline (Suc d)) (map (\<lambda>(k, s). quote k @ '': '' @ s) ms)
      = pre @ (quote k @ '': '' @ s) @ post"
    using joinWith_member by blast
  with True assms have "object pretty d ms
      = (''{'' @ newline (Suc d) @ pre) @ (quote k @ '': '' @ s) @ (post @ newline d @ ''}'')"
    by (auto simp: object_def)
  with True show ?thesis by (simp only: if_True) blast
next
  case False
  from assms have "quote k @ '':'' @ s \<in> set (map (\<lambda>(k, s). quote k @ '':'' @ s) ms)"
    by force
  then obtain pre post where
    "joinWith '','' (map (\<lambda>(k, s). quote k @ '':'' @ s) ms) = pre @ (quote k @ '':'' @ s) @ post"
    using joinWith_member by blast
  with False have "object pretty d ms = (''{'' @ pre) @ (quote k @ '':'' @ s) @ (post @ ''}'')"
    by (simp add: object_def)
  with False show ?thesis by (simp only: if_False) blast
qed

lemma members_member:
  "members xs = Inr ms \<Longrightarrow> (k, r) \<in> set xs \<Longrightarrow> \<exists>s. r = Inr s \<and> (k, s) \<in> set ms"
proof (induction xs arbitrary: ms)
  case Nil
  then show ?case by simp
next
  case (Cons x xs)
  obtain k' r' where x: "x = (k', r')" by (cases x)
  from Cons.prems(1) obtain s' ms' where r': "r' = Inr s'" and ms': "members xs = Inr ms'"
    and ms: "ms = (k', s') # ms'"
    by (auto simp: x split: sum.splits)
  show ?case
  proof (cases "(k, r) = (k', r')")
    case True
    then show ?thesis using r' ms by auto
  next
    case False
    with Cons.prems(2) have "(k, r) \<in> set xs" by (auto simp: x)
    from Cons.IH [OF ms' this] show ?thesis by (auto simp: ms)
  qed
qed

lemma marshal_GMap_member:
  assumes "marshal (GMap ms) pretty d = Inr js" and "(k, v) \<in> set ms"
  shows "\<exists>s. marshal v pretty (Suc d) = Inr s
    \<and> Contains (b @ js @ c) (quote k @ (if pretty then '': '' else '':'') @ s)"
proof -
  let ?xs = "map (\<lambda>(k, m). (k, m pretty (Suc d))) (sort_key fst (map (map_prod id marshal) ms))"
  from assms(1) obtain kvs where kvs: "members ?xs = Inr kvs" and js: "js = object pretty d kvs"
    by (auto split: sum.splits)
  from assms(2) have "(k, marshal v pretty (Suc d)) \<in> set ?xs"
    by force
  from members_member [OF kvs this] obtain s where s: "marshal v pretty (Suc d) = Inr s"
    and mem: "(k, s) \<in> set kvs"
    by blast
  from object_member [OF mem, of pretty d] obtain pre post where
    "js = pre @ (quote k @ (if pretty then '': '' else '':'') @ s) @ post"
    unfolding js by blast
  then have "b @ js @ c
      = (b @ pre) @ (quote k @ (if pretty then '': '' else '':'') @ s) @ (post @ c)"
    by simp
  then have "Contains (b @ js @ c) (quote k @ (if pretty then '': '' else '':'') @ s)"
    by (simp only: Contains_middle)
  with s show ?thesis by blast
qed

lemma encodeEntry_member:
  assumes "ret_error (encodeEntry pretty e data) = None" and "map_of data k = Some v"
  shows "\<exists>out s. ret_bytes (encodeEntry pretty e data) = Some out
    \<and> marshal v pretty (Suc 0) = Inr s \<and> hasMember out pretty k s"
proof (cases "marshal (GMap data) pretty 0")
  case (Inl er)
  with assms(1) show ?thesis
    by (simp add: encodeEntry_failure)
next
  case (Inr js)
  from assms(2) have mem: "(k, v) \<in> set data"
    by (rule map_of_SomeD)
  show ?thesis
  proof (cases "Buffer e")
    case None
    from marshal_GMap_member [OF Inr mem, of "[]" "[CHR 0x0A]"] None Inr show ?thesis
      by (auto simp: encodeEntry_success hasMember_def)
  next
    case (Some b)
    from marshal_GMap_member [OF Inr mem, of b "[CHR 0x0A]"] Some Inr show ?thesis
      by (auto simp: encodeEntry_success hasMember_def)
  qed
qed

lemma reserved_systemFields:
  assumes "k = ''timestamp'' \<and> \<not> DisableTimestamp f \<or> k = ''message'' \<or> k = ''severity''
    \<or> k = ''level'' \<or> k = sourceLocationKey \<and> HasCaller e"
  shows "(\<exists>x. map_of (systemFields f e) k = Some x) \<and> (\<forall>j. ''fields.'' @ j \<noteq> k)"
  using assms by (auto simp: map_of_systemFields map_of_recordFields)

lemma reserved_systemFields_trim:
  assumes "k = ''timestamp'' \<and> \<not> DisableTimestamp f \<or> k = ''message'' \<or> k = ''severity''
    \<or> k = ''level'' \<or> k = sourceLocationKey \<and> HasCaller e"
  shows "(\<exists>x. map_of (systemFields_trim f e) k = Some x) \<and> (\<forall>j. ''fields.'' @ j \<noteq> k)"
  using assms by (auto simp: map_of_systemFields_trim map_of_recordFields)

lemma collision_bytes:
  assumes "distinct (map fst (Data e))" and "(k, v) \<in> set (Data e)"
    and "k = ''timestamp'' \<and> \<not> DisableTimestamp f \<or> k = ''message'' \<or> k = ''severity''
      \<or> k = ''level'' \<or> k = sourceLocationKey \<and> HasCaller e"
    and ok: "ret_error (Format f e) = None"
  shows "\<exists>out s x t. ret_bytes (Format f e) = Some out
    \<and> marshal (fieldValue v) (PrettyPrint f) (Suc 0) = Inr s
    \<and> hasMember out (PrettyPrint f) (''fields.'' @ k) s
    \<and> map_of (systemFields f e) k = Some x
    \<and> marshal x (PrettyPrint f) (Suc 0) = Inr t
    \<and> hasMember out (PrettyPrint f) k t"
proof -
  from reserved_systemFields [OF assms(3)] obtain x
    where x: "map_of (systemFields f e) k = Some x" and plain: "\<forall>j. ''fields.'' @ j \<noteq> k"
    by blast
  from document_collision [OF assms(1,2) x plain]
  have user: "map_of (document f e) (''fields.'' @ k) = Some (fieldValue v)"
    and sys: "map_of (document f e) k = Some x"
    by simp_all
  from ok have ok': "ret_error (encodeEntry (PrettyPrint f) e (document f e)) = None"
    by (simp add: Format_def)
  from encodeEntry_member [OF ok' user] obtain out s
    where out: "ret_bytes (Format f e) = Some out"
      and s: "marshal (fieldValue v) (PrettyPrint f) (Suc 0) = Inr s"
        "hasMember out (PrettyPrint f) (''fields.'' @ k) s"
    unfolding Format_def by blast
  from encodeEntry_member [OF ok' sys] obtain out' t
    where out': "ret_bytes (Format f e) = Some out'"
      and t: "marshal x (PrettyPrint f) (Suc 0) = Inr t" "hasMember out' (PrettyPrint f) k t"
    unfolding Format_def by blast
  from out out' have "out' = out" by simp
  with out s x t show ?thesis by blast
qed

lemma collision_bytes_trim:
  assumes "distinct (map fst (Data e))" and "(k, v) \<in> set (Data e)"
    and "k = ''timestamp'' \<and> \<not> DisableTimestamp f \<or> k = ''message'' \<or> k = ''severity''
      \<or> k = ''level'' \<or> k = sourceLocationKey \<and> HasCaller e"
    and ok: "ret_error (Format_trim f e) = None"
  shows "\<exists>out s x t. ret_bytes (Format_trim f e) = Some out
    \<and> marshal (fieldValue_trim v) (PrettyPrint f) (Suc 0) = Inr s
    \<and> hasMember out (PrettyPrint f) (''fields.'' @ k) s
    \<and> map_of (systemFields_trim f e) k = Some x
    \<and> marshal x (PrettyPrint f) (Suc 0) = Inr t
    \<and> hasMember out (PrettyPrint f) k t"
proof -
  from reserved_systemFields_trim [OF assms(3)] obtain x
    where x: "map_of (systemFields_trim f e) k = Some x" and plain: "\<forall>j. ''fields.'' @ j \<noteq> k"
    by blast
  from document_trim_collision [OF assms(1,2) x plain]
  have user: "map_of (document_trim f e) (''fields.'' @ k) = Some (fieldValue_trim v)"
    and sys: "map_of (document_trim f e) k = Some x"
    by simp_all
  from ok have ok': "ret_error (encodeEntry (PrettyPrint f) e (document_trim f e)) = None"
    by (simp add: Format_trim_def)
  from encodeEntry_member [OF ok' user] obtain out s
    where out: "ret_bytes (Format_trim f e) = Some out"
      and s: "marshal (fieldValue_trim v) (PrettyPrint f) (Suc 0) = Inr s"
        "hasMember out (PrettyPrint f) (''fields.'' @ k) s"
    unfolding Format_trim_def by blast
  from encodeEntry_member [OF ok' sys] obtain out' t
    where out': "ret_bytes (Format_trim f e) = Some out'"
      and t: "marshal x (PrettyPrint f) (Suc 0) = Inr t" "hasMember out' (PrettyPrint f) k t"
    unfolding Format_trim_def by blast
  from out out' have "out' = out" by simp
  with out s x t show ?thesis by blast
qed

section \<open>The claims\<close>

subsection \<open>Severity\<close>

text \<open>
  Claim C1. For every entry, whatever its field map holds, the document that
  \<^verbatim>\<open>Format\<close> encodes (in either source file) carries under \<^verbatim>\<open>severity\<close> the fixed
  mapping of the entry's level: Panic and Fatal give CRITICAL, Error gives ERROR,
  Warning gives WARNING, Info gives INFO, Debug and Trace give DEBUG, and every other
  level value gives DEFAULT. When \<^verbatim>\<open>Format\<close> returns no error, the returned bytes hold the
  member \<^verbatim>\<open>severity\<close> with that value.
\<close>

theorem severity_follows_table:
  fixes f :: Formatter and ft :: Formatter_trim
  shows "map_of (document f e) ''severity'' = Some (GString (stackdriverLevel (Level e)))
    \<and> map_of (document_trim ft e) ''severity'' = Some (GString (stackdriverLevel (Level e)))
    \<and> (Level e = PanicLevel \<or> Level e = FatalLevel \<longrightarrow> stackdriverLevel (Level e) = ''CRITICAL'')
    \<and> (Level e = ErrorLevel \<longrightarrow> stackdriverLevel (Level e) = ''ERROR'')
    \<and> (Level e = WarnLevel \<longrightarrow> stackdriverLevel (Level e) = ''WARNING'')
    \<and> (Level e = InfoLevel \<longrightarrow> stackdriverLevel (Level e) = ''INFO'')
    \<and> (Level e = DebugLevel \<or> Level e = TraceLevel \<longrightarrow> stackdriverLevel (Level e) = ''DEBUG'')
    \<and> (Level e \<notin> {PanicLevel, FatalLevel, ErrorLevel, WarnLevel, InfoLevel, DebugLevel, TraceLevel}
          \<longrightarrow> stackdriverLevel (Level e) = ''DEFAULT'')
    \<and> (ret_error (Format f e) = None \<longrightarrow>
          (\<exists>out. ret_bytes (Format f e) = Some out
             \<and> hasMember out (PrettyPrint f) ''severity'' (quote (stackdriverLevel (Level e)))))
    \<and> (ret_error (Format_trim ft e) = None \<longrightarrow>
          (\<exists>out. ret_bytes (Format_trim ft e) = Some out
             \<and> hasMember out (PrettyPrint ft) ''severity'' (quote (stackdriverLevel (Level e)))))"
proof -
  have "ret_error (Format f e) = None \<Longrightarrow>
      \<exists>out. ret_bytes (Format f e) = Some out
        \<and> hasMember out (PrettyPrint f) ''severity'' (quote (stackdriverLevel (Level e)))"
    using encodeEntry_member [of "PrettyPrint f" e "document f e", OF _ severity_document]
    by (auto simp: Format_def)
  moreover have "ret_error (Format_trim ft e) = None \<Longrightarrow>
      \<exists>out. ret_bytes (Format_trim ft e) = Some out
        \<and> hasMember out (PrettyPrint ft) ''severity'' (quote (stackdriverLevel (Level e)))"
    using encodeEntry_member [of "PrettyPrint ft" e "document_trim ft e",
        OF _ severity_document_trim]
    by (auto simp: Format_trim_def)
  ultimately show ?thesis
    by (simp add: severity_document severity_document_trim stackdriverLevel_def level_defs)
qed

theorem severity_follows_table_witness:
  "Level (sample_entry\<lparr>Level := 9, Data := [(''severity'', GString ''LOUD'')]\<rparr>)
      \<notin> {PanicLevel, FatalLevel, ErrorLevel, WarnLevel, InfoLevel, DebugLevel, TraceLevel}
    \<and> map_of (document plain_formatter
          (sample_entry\<lparr>Level := 9, Data := [(''severity'', GString ''LOUD'')]\<rparr>)) ''severity''
        = Some (GString ''DEFAULT'')
    \<and> map_of (document_trim trim_formatter
          (sample_entry\<lparr>Level := 9, Data := [(''severity'', GString ''LOUD'')]\<rparr>)) ''severity''
        = Some (GString ''DEFAULT'')
    \<and> ret_error (Format plain_formatter
          (sample_entry\<lparr>Level := 9, Data := [(''severity'', GString ''LOUD'')]\<rparr>)) = None
    \<and> ret_error (Format_trim trim_formatter
          (sample_entry\<lparr>Level := 9, Data := [(''severity'', GString ''LOUD'')]\<rparr>)) = None
    \<and> (\<exists>out. ret_bytes (Format plain_formatter
            (sample_entry\<lparr>Level := 9, Data := [(''severity'', GString ''LOUD'')]\<rparr>)) = Some out
          \<and> hasMember out False ''severity'' (quote ''DEFAULT''))
    \<and> (\<exists>out. ret_bytes (Format_trim trim_formatter
            (sample_entry\<lparr>Level := 9, Data := [(''severity'', GString ''LOUD'')]\<rparr>)) = Some out
          \<and> hasMember out False ''severity'' (quote ''DEFAULT''))"
proof -
  have ok: "ret_error (Format plain_formatter
        (sample_entry\<lparr>Level := 9, Data := [(''severity'', GString ''LOUD'')]\<rparr>)) = None"
    "ret_error (Format_trim trim_formatter
        (sample_entry\<lparr>Level := 9, Data := [(''severity'', GString ''LOUD'')]\<rparr>)) = None"
    by (simp_all add: eval_simps)
  have pretty: "PrettyPrint plain_formatter = False" "PrettyPrint trim_formatter = False"
    by (simp_all add: plain_formatter_def trim_formatter_def)
  show ?thesis
    using severity_follows_table
      [of plain_formatter "sample_entry\<lparr>Level := 9, Data := [(''severity'', GString ''LOUD'')]\<rparr>"
        trim_formatter]
    by (simp add: level_defs ok pretty stackdriverLevel_def)
qed

subsection \<open>Collision with a reserved key\<close>

text \<open>
  Claim C2. Let the field map (a Go map, so with distinct keys) hold \<open>(k, v)\<close> where
  \<open>k\<close> is a key that \<^verbatim>\<open>Format\<close> has set from the record: \<^verbatim>\<open>message\<close>,
  \<^verbatim>\<open>severity\<close>, \<^verbatim>\<open>level\<close>, \<^verbatim>\<open>timestamp\<close> when timestamps are enabled, or the
  source-location key when the entry has a caller. Then, in whatever order the map is
  visited, the document holds the user's value (as the type switch inserts it) under
  \<^verbatim>\<open>fields.\<close> followed by \<open>k\<close>, and under \<open>k\<close> itself still the value set from
  the record; and when \<^verbatim>\<open>Format\<close> returns no error, the bytes it returns hold both
  members, each with the encoding of its value. Both source files.
\<close>

theorem reserved_key_collision:
  fixes f :: Formatter and ft :: Formatter_trim
  assumes "distinct (map fst (Data e))" and "(k, v) \<in> set (Data e)"
  shows "((k = ''message'' \<longrightarrow>
        map_of (document f e) ''fields.message'' = Some (fieldValue v)
      \<and> map_of (document f e) ''message'' = Some (GString (Message e)))
    \<and> (k = ''severity'' \<longrightarrow>
        map_of (document f e) ''fields.severity'' = Some (fieldValue v)
      \<and> map_of (document f e) ''severity'' = Some (GString (stackdriverLevel (Level e))))
    \<and> (k = ''level'' \<longrightarrow>
        map_of (document f e) ''fields.level'' = Some (fieldValue v)
      \<and> map_of (document f e) ''level'' = Some (GString (Level_String (Level e))))
    \<and> (k = ''timestamp'' \<and> \<not> DisableTimestamp f \<longrightarrow>
        map_of (document f e) ''fields.timestamp'' = Some (fieldValue v)
      \<and> map_of (document f e) ''timestamp'' = Some (timestampValue e))
    \<and> (k = sourceLocationKey \<and> HasCaller e \<longrightarrow>
        map_of (document f e) (''fields.'' @ sourceLocationKey) = Some (fieldValue v)
      \<and> (\<exists>c. Caller e = Some c \<and> map_of (document f e) sourceLocationKey =
            Some (GMap (sourceLocation (fst (callerStrings f c)) (snd (callerStrings f c))
              (Line c))))))
  \<and> ((k = ''message'' \<longrightarrow>
        map_of (document_trim ft e) ''fields.message'' = Some (fieldValue_trim v)
      \<and> map_of (document_trim ft e) ''message'' = Some (GString (Message e)))
    \<and> (k = ''severity'' \<longrightarrow>
        map_of (document_trim ft e) ''fields.severity'' = Some (fieldValue_trim v)
      \<and> map_of (document_trim ft e) ''severity'' = Some (GString (stackdriverLevel (Level e))))
    \<and> (k = ''level'' \<longrightarrow>
        map_of (document_trim ft e) ''fields.level'' = Some (fieldValue_trim v)
      \<and> map_of (document_trim ft e) ''level'' = Some (GString (Level_String (Level e))))
    \<and> (k = ''timestamp'' \<and> \<not> DisableTimestamp ft \<longrightarrow>
        map_of (document_trim ft e) ''fields.timestamp'' = Some (fieldValue_trim v)
      \<and> map_of (document_trim ft e) ''timestamp'' = Some (timestampValue e))
    \<and> (k = sourceLocationKey \<and> HasCaller e \<longrightarrow>
        map_of (document_trim ft e) (''fields.'' @ sourceLocationKey) = Some (fieldValue_trim v)
      \<and> (\<exists>c. Caller e = Some c \<and> map_of (document_trim ft e) sourceLocationKey =
            Some (GMap (sourceLocation (fst (callerStrings_trim ft c))
              (snd (callerStrings_trim ft c)) (Line c))))))
  \<and> ((k = ''timestamp'' \<and> \<not> DisableTimestamp f \<or> k = ''message'' \<or> k = ''severity''
        \<or> k = ''level'' \<or> k = sourceLocationKey \<and> HasCaller e)
      \<and> ret_error (Format f e) = None \<longrightarrow>
        (\<exists>out s x t. ret_bytes (Format f e) = Some out
           \<and> marshal (fieldValue v) (PrettyPrint f) (Suc 0) = Inr s
           \<and> hasMember out (PrettyPrint f) (''fields.'' @ k) s
           \<and> map_of (systemFields f e) k = Some x
           \<and> marshal x (PrettyPrint f) (Suc 0) = Inr t
           \<and> hasMember out (PrettyPrint f) k t))
  \<and> ((k = ''timestamp'' \<and> \<not> DisableTimestamp ft \<or> k = ''message'' \<or> k = ''severity''
        \<or> k = ''level'' \<or> k = sourceLocationKey \<and> HasCaller e)
      \<and> ret_error (Format_trim ft e) = None \<longrightarrow>
        (\<exists>out s x t. ret_bytes (Format_trim ft e) = Some out
           \<and> marshal (fieldValue_trim v) (PrettyPrint ft) (Suc 0) = Inr s
           \<and> hasMember out (PrettyPrint ft) (''fields.'' @ k) s
           \<and> map_of (systemFields_trim ft e) k = Some x
           \<and> marshal x (PrettyPrint ft) (Suc 0) = Inr t
           \<and> hasMember out (PrettyPrint ft) k t))"
proof (rule conjI [OF collision_formatter_go [OF assms]],
    rule conjI [OF collision_trim [OF assms]], rule conjI)
  show "(k = ''timestamp'' \<and> \<not> DisableTimestamp f \<or> k = ''message'' \<or> k = ''severity''
        \<or> k = ''level'' \<or> k = sourceLocationKey \<and> HasCaller e)
      \<and> ret_error (Format f e) = None \<longrightarrow>
        (\<exists>out s x t. ret_bytes (Format f e) = Some out
           \<and> marshal (fieldValue v) (PrettyPrint f) (Suc 0) = Inr s
           \<and> hasMember out (PrettyPrint f) (''fields.'' @ k) s
           \<and> map_of (systemFields f e) k = Some x
           \<and> marshal x (PrettyPrint f) (Suc 0) = Inr t
           \<and> hasMember out (PrettyPrint f) k t)"
    by (rule impI, erule conjE, rule collision_bytes [OF assms])
  show "(k = ''timestamp'' \<and> \<not> DisableTimestamp ft \<or> k = ''message'' \<or> k = ''severity''
        \<or> k = ''level'' \<or> k = sourceLocationKey \<and> HasCaller e)
      \<and> ret_error (Format_trim ft e) = None \<longrightarrow>
        (\<exists>out s x t. ret_bytes (Format_trim ft e) = Some out
           \<and> marshal (fieldValue_trim v) (PrettyPrint ft) (Suc 0) = Inr s
           \<and> hasMember out (PrettyPrint ft) (''fields.'' @ k) s
           \<and> map_of (systemFields_trim ft e) k = Some x
           \<and> marshal x (PrettyPrint ft) (Suc 0) = Inr t
           \<and> hasMember out (PrettyPrint ft) k t)"
    by (rule impI, erule conjE, rule collision_bytes_trim [OF assms])
qed

theorem reserved_key_collision_witness:
  \<open>distinct (map fst (Data sample_entry))
    \<and> (''message'', GString ''user text'') \<in> set (Data sample_entry)
    \<and> map_of (document plain_formatter sample_entry) ''fields.message''
        = Some (GString ''user text'')
    \<and> map_of (document plain_formatter sample_entry) ''message'' = Some (GString ''hello'')
    \<and> map_of (document_trim trim_formatter sample_entry) ''fields.message''
        = Some (GString ''user text'')
    \<and> map_of (document_trim trim_formatter sample_entry) ''message'' = Some (GString ''hello'')
    \<and> ret_error (Format plain_formatter sample_entry) = None
    \<and> ret_error (Format_trim trim_formatter sample_entry) = None
    \<and> (\<exists>out. ret_bytes (Format plain_formatter sample_entry) = Some out
          \<and> hasMember out False ''fields.message'' ''"user text"''
          \<and> hasMember out False ''message'' ''"hello"'')
    \<and> (\<exists>out. ret_bytes (Format_trim trim_formatter sample_entry) = Some out
          \<and> hasMember out False ''fields.message'' ''"user text"''
          \<and> hasMember out False ''message'' ''"hello"'')\<close>
proof -
  have data: "Data sample_entry = [(''message'', GString ''user text''),
      (''cause'', GErrorMarshaler ''boom'' (Inr (GMap [(''code'', GInt 7)]))),
      (''error'', GError ''wild walrus'')]"
    and msg: "Message sample_entry = ''hello''"
    by (simp_all add: sample_entry_def)
  have ok: "ret_error (Format plain_formatter sample_entry) = None"
    "ret_error (Format_trim trim_formatter sample_entry) = None"
    by (simp_all add: eval_simps)
  have pretty: "PrettyPrint plain_formatter = False" "PrettyPrint trim_formatter = False"
    by (simp_all add: plain_formatter_def trim_formatter_def)
  have quoted: \<open>quote ''user text'' = ''"user text"''\<close> \<open>quote ''hello'' = ''"hello"''\<close>
    by (simp_all add: quote_def escapeByte_def)
  have sys: "map_of (systemFields plain_formatter sample_entry) ''message'' = Some (GString ''hello'')"
    "map_of (systemFields_trim trim_formatter sample_entry) ''message'' = Some (GString ''hello'')"
    by (simp_all add: systemFields_values systemFields_trim_values msg)
  show ?thesis
    using reserved_key_collision [where e = sample_entry and k = "''message''"
        and v = "GString ''user text''" and f = plain_formatter and ft = trim_formatter]
    by (simp add: data msg ok pretty sys quoted [symmetric])
qed

subsection \<open>Renaming is not lossless\<close>

text \<open>
  Claim C3 says that the renaming never loses a field value, also when the field map
  holds \<^verbatim>\<open>fields.message\<close> beside \<^verbatim>\<open>message\<close>. The loop renames a key that is set,
  but does not look whether the new name is set as well. When \<^verbatim>\<open>range\<close> visits
  \<^verbatim>\<open>fields.message\<close> first, the value of \<^verbatim>\<open>message\<close> is then written over it and the
  value \<^verbatim>\<open>first\<close> is in no key of the document; when it visits \<^verbatim>\<open>message\<close> first, both
  values are kept. So on this field map the document depends on the order of the visit,
  and one order loses a value. Both source files.
\<close>

theorem renamed_key_overwrites_field:
  "document plain_formatter
      (clash_entry [(''fields.message'', GString ''first''), (''message'', GString ''second'')])
    = [(''timestamp'', GMap [(''seconds'', GInt 0), (''nanos'', GInt 0)]),
       (''message'', GString ''hello''), (''severity'', GString ''INFO''),
       (''level'', GString ''info''), (''fields.message'', GString ''second'')]
  \<and> document plain_formatter
      (clash_entry [(''message'', GString ''second''), (''fields.message'', GString ''first'')])
    = [(''timestamp'', GMap [(''seconds'', GInt 0), (''nanos'', GInt 0)]),
       (''message'', GString ''hello''), (''severity'', GString ''INFO''),
       (''level'', GString ''info''), (''fields.message'', GString ''second''),
       (''fields.fields.message'', GString ''first'')]
  \<and> document_trim trim_formatter
      (clash_entry [(''fields.message'', GString ''first''), (''message'', GString ''second'')])
    = [(''timestamp'', GMap [(''seconds'', GInt 0), (''nanos'', GInt 0)]),
       (''message'', GString ''hello''), (''severity'', GString ''INFO''),
       (''level'', GString ''info''), (''fields.message'', GString ''second'')]
  \<and> document_trim trim_formatter
      (clash_entry [(''message'', GString ''second''), (''fields.message'', GString ''first'')])
    = [(''timestamp'', GMap [(''seconds'', GInt 0), (''nanos'', GInt 0)]),
       (''message'', GString ''hello''), (''severity'', GString ''INFO''),
       (''level'', GString ''info''), (''fields.message'', GString ''second''),
       (''fields.fields.message'', GString ''first'')]"
  by (simp add: eval_simps)

subsection \<open>Error values\<close>

text \<open>
  Claim C4 says that an error value that is a \<^verbatim>\<open>json.Marshaler\<close> is inserted as it
  is. The type switch of \<^verbatim>\<open>formatter.go\<close> has one case for \<^verbatim>\<open>error\<close> and calls
  \<^verbatim>\<open>Error()\<close> in it: on the sample entry the field \<^verbatim>\<open>cause\<close>, whose value marshals
  to an object, is inserted as the string \<^verbatim>\<open>boom\<close>.
\<close>

theorem marshaler_error_flattened:
  "map_of (document plain_formatter sample_entry) ''cause'' = Some (GString ''boom'')
    \<and> map_of (document plain_formatter sample_entry) ''cause''
        \<noteq> Some (GErrorMarshaler ''boom'' (Inr (GMap [(''code'', GInt 7)])))
    \<and> (''cause'', GErrorMarshaler ''boom'' (Inr (GMap [(''code'', GInt 7)])))
        \<in> set (Data sample_entry)"
  by (simp add: eval_simps)

text \<open>
  Claim C4, as amended. Let the field map (with distinct keys) hold \<open>(k, v)\<close>, where
  \<open>k\<close> is not \<^verbatim>\<open>fields.\<close> followed by another key of the map, and let \<open>v\<close> be an
  error value. The key it is inserted under is \<open>k\<close>, renamed if the record set
  \<open>k\<close>. In the source file with \<^verbatim>\<open>TrimFilenamePrefix\<close>, an error that is a
  \<^verbatim>\<open>json.Marshaler\<close> is inserted as it is and any other error as the text of
  \<^verbatim>\<open>Error()\<close>. In \<^verbatim>\<open>formatter.go\<close> every error, a \<^verbatim>\<open>json.Marshaler\<close> or
  not, is inserted as the text of \<^verbatim>\<open>Error()\<close>. In both, no key of the document holds
  an error value that is not a \<^verbatim>\<open>json.Marshaler\<close>.
\<close>

theorem error_values_inserted:
  fixes f :: Formatter and ft :: Formatter_trim
  assumes "distinct (map fst (Data e))" and "(k, v) \<in> set (Data e)"
    and "\<forall>j \<in> fst ` set (Data e). ''fields.'' @ j \<noteq> k"
  shows "(v = GErrorMarshaler msg r \<longrightarrow>
        map_of (document_trim ft e) (fieldKey (systemFields_trim ft e) k)
          = Some (GErrorMarshaler msg r))
    \<and> (v = GError msg \<longrightarrow>
        map_of (document_trim ft e) (fieldKey (systemFields_trim ft e) k) = Some (GString msg))
    \<and> (v = GErrorMarshaler msg r \<or> v = GError msg \<longrightarrow>
        map_of (document f e) (fieldKey (systemFields f e) k) = Some (GString msg))
    \<and> (\<forall>s m. map_of (document_trim ft e) s \<noteq> Some (GError m))
    \<and> (\<forall>s m. map_of (document f e) s \<noteq> Some (GError m))"
  using document_field [OF assms, of f] document_trim_field [OF assms, of ft]
  by (auto simp: document_never_error document_trim_never_error)

theorem error_values_inserted_witness:
  "distinct (map fst (Data sample_entry))
    \<and> (''cause'', GErrorMarshaler ''boom'' (Inr (GMap [(''code'', GInt 7)])))
        \<in> set (Data sample_entry)
    \<and> (''error'', GError ''wild walrus'') \<in> set (Data sample_entry)
    \<and> map_of (document_trim trim_formatter sample_entry) ''cause''
        = Some (GErrorMarshaler ''boom'' (Inr (GMap [(''code'', GInt 7)])))
    \<and> map_of (document_trim trim_formatter sample_entry) ''error''
        = Some (GString ''wild walrus'')
    \<and> map_of (document plain_formatter sample_entry) ''cause'' = Some (GString ''boom'')
    \<and> map_of (document plain_formatter sample_entry) ''error''
        = Some (GString ''wild walrus'')"
proof -
  have keys: "fieldKey (systemFields plain_formatter sample_entry) ''cause'' = ''cause''"
    "fieldKey (systemFields plain_formatter sample_entry) ''error'' = ''error''"
    "fieldKey (systemFields_trim trim_formatter sample_entry) ''cause'' = ''cause''"
    "fieldKey (systemFields_trim trim_formatter sample_entry) ''error'' = ''error''"
    by (simp_all add: fieldKey_def map_of_systemFields map_of_systemFields_trim
        map_of_recordFields sourceLocationKey_def)
  have data: "Data sample_entry = [(''message'', GString ''user text''),
      (''cause'', GErrorMarshaler ''boom'' (Inr (GMap [(''code'', GInt 7)]))),
      (''error'', GError ''wild walrus'')]"
    by (simp add: sample_entry_def)
  show ?thesis
    using error_values_inserted [where e = sample_entry and k = "''cause''"
        and v = "GErrorMarshaler ''boom'' (Inr (GMap [(''code'', GInt 7)]))"
        and msg = "''boom''" and r = "Inr (GMap [(''code'', GInt 7)])"
        and f = plain_formatter and ft = trim_formatter]
      error_values_inserted [where e = sample_entry and k = "''error''"
        and v = "GError ''wild walrus''" and msg = "''wild walrus''"
        and f = plain_formatter and ft = trim_formatter]
    by (simp add: keys data)
qed

subsection \<open>Suppression of source-location members\<close>

text \<open>
  Claim C5. For an entry with a caller, let \<open>funcVal\<close> and \<open>fileVal\<close> be the function
  and file strings in force (the caller's own, the file trimmed in the second source
  file, or the prettyfier's). The document holds an object under the source-location key
  in which \<^verbatim>\<open>function\<close> is present exactly when \<open>funcVal\<close> is not empty, and
  \<^verbatim>\<open>file\<close> and \<^verbatim>\<open>line\<close> are both present exactly when \<open>fileVal\<close> is not empty; so
  \<^verbatim>\<open>line\<close> never stands without \<^verbatim>\<open>file\<close>.
\<close>

theorem source_location_suppression:
  fixes f :: Formatter and ft :: Formatter_trim
  assumes "HasCaller e" and "Caller e = Some c"
    and "callerStrings f c = (funcVal, fileVal)"
    and "callerStrings_trim ft c = (funcVal_t, fileVal_t)"
  shows "(\<exists>l. map_of (document f e) sourceLocationKey = Some (GMap l)
        \<and> map_of l ''function'' = (if funcVal = '''' then None else Some (GString funcVal))
        \<and> map_of l ''file'' = (if fileVal = '''' then None else Some (GString fileVal))
        \<and> map_of l ''line'' = (if fileVal = '''' then None else Some (GInt (Line c)))
        \<and> (map_of l ''line'' \<noteq> None \<longrightarrow> map_of l ''file'' \<noteq> None))
    \<and> (\<exists>l. map_of (document_trim ft e) sourceLocationKey = Some (GMap l)
        \<and> map_of l ''function'' = (if funcVal_t = '''' then None else Some (GString funcVal_t))
        \<and> map_of l ''file'' = (if fileVal_t = '''' then None else Some (GString fileVal_t))
        \<and> map_of l ''line'' = (if fileVal_t = '''' then None else Some (GInt (Line c)))
        \<and> (map_of l ''line'' \<noteq> None \<longrightarrow> map_of l ''file'' \<noteq> None))"
  using sourceLocation_document [OF assms(1,2), of f]
    sourceLocation_document_trim [OF assms(1,2), of ft] assms(3,4)
  by (simp add: map_of_sourceLocation)

theorem source_location_suppression_witness:
  "HasCaller sample_entry \<and> Caller sample_entry = Some sample_caller
    \<and> callerStrings plain_formatter sample_caller = (''main.run'', ''/src/app/main.go'')
    \<and> callerStrings_trim trim_formatter sample_caller = (''main.run'', '''')
    \<and> (\<exists>l. map_of (document plain_formatter sample_entry) sourceLocationKey = Some (GMap l)
          \<and> map_of l ''function'' = Some (GString ''main.run'')
          \<and> map_of l ''file'' = Some (GString ''/src/app/main.go'')
          \<and> map_of l ''line'' = Some (GInt 42))
    \<and> (\<exists>l. map_of (document_trim trim_formatter sample_entry) sourceLocationKey = Some (GMap l)
          \<and> map_of l ''function'' = Some (GString ''main.run'')
          \<and> map_of l ''file'' = None
          \<and> map_of l ''line'' = None)"
proof -
  have h: "HasCaller sample_entry" "Caller sample_entry = Some sample_caller"
    "callerStrings plain_formatter sample_caller = (''main.run'', ''/src/app/main.go'')"
    "callerStrings_trim trim_formatter sample_caller = (''main.run'', '''')"
    by (simp_all add: HasCaller_def sample_entry_def callerStrings_def callerStrings_trim_def
        sample_caller_def plain_formatter_def trim_formatter_def TrimPrefix_def)
  have line: "Line sample_caller = 42"
    by (simp add: sample_caller_def)
  show ?thesis
    using source_location_suppression [OF h] by (auto simp: h line)
qed

subsection \<open>Trailing newline\<close>

text \<open>
  Claim C6. Whenever \<^verbatim>\<open>Format\<close> returns no error, the bytes it returns end in
  exactly one newline: the last byte is a newline and the byte before it is the closing
  brace of the document.
\<close>

theorem output_ends_with_one_newline:
  fixes f :: Formatter and ft :: Formatter_trim
  shows "(ret_error (Format f e) = None \<longrightarrow>
        (\<exists>body. ret_bytes (Format f e) = Some (body @ [CHR 0x0A])
           \<and> body \<noteq> [] \<and> last body = CHR ''}'' \<and> last body \<noteq> CHR 0x0A))
    \<and> (ret_error (Format_trim ft e) = None \<longrightarrow>
        (\<exists>body. ret_bytes (Format_trim ft e) = Some (body @ [CHR 0x0A])
           \<and> body \<noteq> [] \<and> last body = CHR ''}'' \<and> last body \<noteq> CHR 0x0A))"
  unfolding Format_def Format_trim_def
  by (intro conjI impI encodeEntry_newline)

theorem output_ends_with_one_newline_witness:
  "ret_error (Format plain_formatter sample_entry) = None
    \<and> ret_error (Format_trim trim_formatter sample_entry) = None
    \<and> (\<exists>body. ret_bytes (Format plain_formatter sample_entry) = Some (body @ [CHR 0x0A])
          \<and> body \<noteq> [] \<and> last body = CHR ''}'' \<and> last body \<noteq> CHR 0x0A)
    \<and> (\<exists>body. ret_bytes (Format_trim trim_formatter sample_entry) = Some (body @ [CHR 0x0A])
          \<and> body \<noteq> [] \<and> last body = CHR ''}'' \<and> last body \<noteq> CHR 0x0A)"
proof -
  have ok: "ret_error (Format plain_formatter sample_entry) = None"
    "ret_error (Format_trim trim_formatter sample_entry) = None"
    by (simp_all add: eval_simps)
  show ?thesis
    using output_ends_with_one_newline [of plain_formatter sample_entry trim_formatter] ok
    by simp
qed

subsection \<open>Timestamp\<close>

text \<open>
  Claim C7 says that with \<^verbatim>\<open>DisableTimestamp\<close> true the output has no \<^verbatim>\<open>timestamp\<close>
  key and nowhere the text \<^verbatim>\<open>timestamp\<close>. A user field of that name is not renamed
  then, since the key is not set, and is written out under it.
\<close>

theorem disabled_timestamp_still_in_output:
  \<open>DisableTimestamp (plain_formatter\<lparr>DisableTimestamp := True\<rparr>)
    \<and> DisableTimestamp (trim_formatter\<lparr>DisableTimestamp := True\<rparr>)
    \<and> map_of (document (plain_formatter\<lparr>DisableTimestamp := True\<rparr>)
          (clash_entry [(''timestamp'', GString ''right now!'')])) ''timestamp''
        = Some (GString ''right now!'')
    \<and> ret_bytes (Format (plain_formatter\<lparr>DisableTimestamp := True\<rparr>)
          (clash_entry [(''timestamp'', GString ''right now!'')]))
        = Some (''{"level":"info","message":"hello","severity":"INFO","timestamp":"right now!"}''
            @ [CHR 0x0A])
    \<and> ret_bytes (Format_trim (trim_formatter\<lparr>DisableTimestamp := True\<rparr>)
          (clash_entry [(''timestamp'', GString ''right now!'')]))
        = Some (''{"level":"info","message":"hello","severity":"INFO","timestamp":"right now!"}''
            @ [CHR 0x0A])
    \<and> Contains
          (''{"level":"info","message":"hello","severity":"INFO","timestamp":"right now!"}''
            @ [CHR 0x0A])
          ''timestamp''\<close>
  by (simp add: eval_simps)

text \<open>
  Claim C7, as amended. With \<^verbatim>\<open>DisableTimestamp\<close> false the document always holds under
  \<^verbatim>\<open>timestamp\<close> the object with \<^verbatim>\<open>seconds\<close> and \<^verbatim>\<open>nanos\<close> of the entry's time,
  and the returned bytes hold that member when \<^verbatim>\<open>Format\<close> returns no error.
  With \<^verbatim>\<open>DisableTimestamp\<close> true \<^verbatim>\<open>Format\<close> sets no timestamp of its own: the
  document has the key \<^verbatim>\<open>timestamp\<close> exactly when the field map (with distinct keys)
  has it, and then it holds that user field. Nothing is said about the bytes of the
  message and of the field values. Both source files.
\<close>

theorem timestamp_key:
  fixes f :: Formatter and ft :: Formatter_trim
  assumes "distinct (map fst (Data e))"
  shows "(\<not> DisableTimestamp f \<longrightarrow> map_of (document f e) ''timestamp'' =
          Some (GMap [(''seconds'', GInt (Unix (Time e))), (''nanos'', GInt (Nanosecond (Time e)))]))
    \<and> (\<not> DisableTimestamp ft \<longrightarrow> map_of (document_trim ft e) ''timestamp'' =
          Some (GMap [(''seconds'', GInt (Unix (Time e))), (''nanos'', GInt (Nanosecond (Time e)))]))
    \<and> (DisableTimestamp f \<longrightarrow> map_of (document f e) ''timestamp'' =
          map_option fieldValue (map_of (Data e) ''timestamp''))
    \<and> (DisableTimestamp ft \<longrightarrow> map_of (document_trim ft e) ''timestamp'' =
          map_option fieldValue_trim (map_of (Data e) ''timestamp''))
    \<and> (\<not> DisableTimestamp f \<and> ret_error (Format f e) = None \<longrightarrow>
          (\<exists>out s. ret_bytes (Format f e) = Some out
             \<and> marshal (timestampValue e) (PrettyPrint f) (Suc 0) = Inr s
             \<and> hasMember out (PrettyPrint f) ''timestamp'' s))
    \<and> (\<not> DisableTimestamp ft \<and> ret_error (Format_trim ft e) = None \<longrightarrow>
          (\<exists>out s. ret_bytes (Format_trim ft e) = Some out
             \<and> marshal (timestampValue e) (PrettyPrint ft) (Suc 0) = Inr s
             \<and> hasMember out (PrettyPrint ft) ''timestamp'' s))"
proof -
  have "\<not> DisableTimestamp f \<Longrightarrow> ret_error (Format f e) = None \<Longrightarrow>
      \<exists>out s. ret_bytes (Format f e) = Some out
        \<and> marshal (timestampValue e) (PrettyPrint f) (Suc 0) = Inr s
        \<and> hasMember out (PrettyPrint f) ''timestamp'' s"
    using encodeEntry_member [of "PrettyPrint f" e "document f e" "''timestamp''"
        "timestampValue e"] timestamp_enabled [of f e]
    by (simp add: Format_def)
  moreover have "\<not> DisableTimestamp ft \<Longrightarrow> ret_error (Format_trim ft e) = None \<Longrightarrow>
      \<exists>out s. ret_bytes (Format_trim ft e) = Some out
        \<and> marshal (timestampValue e) (PrettyPrint ft) (Suc 0) = Inr s
        \<and> hasMember out (PrettyPrint ft) ''timestamp'' s"
    using encodeEntry_member [of "PrettyPrint ft" e "document_trim ft e" "''timestamp''"
        "timestampValue e"] timestamp_trim_enabled [of ft e]
    by (simp add: Format_trim_def)
  moreover have "timestampValue e
      = GMap [(''seconds'', GInt (Unix (Time e))), (''nanos'', GInt (Nanosecond (Time e)))]"
    by (simp add: timestampValue_def)
  ultimately show ?thesis
    using timestamp_enabled [of f e] timestamp_trim_enabled [of ft e]
      timestamp_disabled [OF assms, of f] timestamp_trim_disabled [OF assms, of ft]
    by (simp del: marshal.simps)
qed

theorem timestamp_key_witness:
  \<open>distinct (map fst (Data sample_entry))
    \<and> \<not> DisableTimestamp plain_formatter \<and> \<not> DisableTimestamp trim_formatter
    \<and> map_of (document plain_formatter sample_entry) ''timestamp''
        = Some (GMap [(''seconds'', GInt 1600000000), (''nanos'', GInt 5)])
    \<and> map_of (document_trim trim_formatter sample_entry) ''timestamp''
        = Some (GMap [(''seconds'', GInt 1600000000), (''nanos'', GInt 5)])
    \<and> distinct (map fst (Data (clash_entry [(''timestamp'', GError ''late'')])))
    \<and> DisableTimestamp (plain_formatter\<lparr>DisableTimestamp := True\<rparr>)
    \<and> DisableTimestamp (trim_formatter\<lparr>DisableTimestamp := True\<rparr>)
    \<and> map_of (document (plain_formatter\<lparr>DisableTimestamp := True\<rparr>)
          (clash_entry [(''timestamp'', GError ''late'')])) ''timestamp''
        = Some (GString ''late'')
    \<and> map_of (document_trim (trim_formatter\<lparr>DisableTimestamp := True\<rparr>)
          (clash_entry [(''timestamp'', GError ''late'')])) ''timestamp''
        = Some (GString ''late'')
    \<and> map_of (document (plain_formatter\<lparr>DisableTimestamp := True\<rparr>) (clash_entry []))
          ''timestamp'' = None
    \<and> ret_error (Format plain_formatter sample_entry) = None
    \<and> ret_error (Format_trim trim_formatter sample_entry) = None
    \<and> (\<exists>out. ret_bytes (Format plain_formatter sample_entry) = Some out
          \<and> hasMember out False ''timestamp'' ''{"nanos":5,"seconds":1600000000}'')
    \<and> (\<exists>out. ret_bytes (Format_trim trim_formatter sample_entry) = Some out
          \<and> hasMember out False ''timestamp'' ''{"nanos":5,"seconds":1600000000}'')\<close>
proof -
  have ok: "ret_error (Format plain_formatter sample_entry) = None"
    "ret_error (Format_trim trim_formatter sample_entry) = None"
    by (simp_all add: eval_simps)
  have pretty: "PrettyPrint plain_formatter = False" "PrettyPrint trim_formatter = False"
    by (simp_all add: plain_formatter_def trim_formatter_def)
  have stamp: \<open>marshal (timestampValue sample_entry) False (Suc 0)
      = Inr ''{"nanos":5,"seconds":1600000000}''\<close>
    by (simp add: eval_simps)
  have data: "Data sample_entry = [(''message'', GString ''user text''),
      (''cause'', GErrorMarshaler ''boom'' (Inr (GMap [(''code'', GInt 7)]))),
      (''error'', GError ''wild walrus'')]"
    "Time sample_entry = \<lparr>Unix = 1600000000, Nanosecond = 5\<rparr>"
    "\<And>fs. Data (clash_entry fs) = fs"
    by (simp_all add: sample_entry_def clash_entry_def)
  have flags: "\<not> DisableTimestamp plain_formatter" "\<not> DisableTimestamp trim_formatter"
    by (simp_all add: plain_formatter_def trim_formatter_def)
  show ?thesis
    using timestamp_key [where e = sample_entry and f = plain_formatter and ft = trim_formatter]
      timestamp_key [where e = "clash_entry [(''timestamp'', GError ''late'')]"
        and f = "plain_formatter\<lparr>DisableTimestamp := True\<rparr>"
        and ft = "trim_formatter\<lparr>DisableTimestamp := True\<rparr>"]
      timestamp_key [where e = "clash_entry []"
        and f = "plain_formatter\<lparr>DisableTimestamp := True\<rparr>"
        and ft = "trim_formatter\<lparr>DisableTimestamp := True\<rparr>"]
    by (simp add: data flags ok pretty stamp del: marshal.simps)
qed

subsection \<open>Errors\<close>

text \<open>
  Claim C8. \<^verbatim>\<open>Format\<close> returns an error exactly when the encoding of the document
  fails; the error is then the fixed prefix followed by the encoder's error, and the
  returned byte slice is nil. When every value of the field map, as the type switch
  inserts it, can be encoded, \<^verbatim>\<open>Format\<close> returns no error, whatever the level, the
  caller and the other parts of the entry are.
\<close>

theorem error_only_from_encoding:
  fixes f :: Formatter and ft :: Formatter_trim
  shows "(ret_error (Format f e) \<noteq> None \<longleftrightarrow> isl (marshal (GMap (document f e)) (PrettyPrint f) 0))
    \<and> (ret_error (Format_trim ft e) \<noteq> None
          \<longleftrightarrow> isl (marshal (GMap (document_trim ft e)) (PrettyPrint ft) 0))
    \<and> (\<forall>er. marshal (GMap (document f e)) (PrettyPrint f) 0 = Inl er \<longrightarrow>
          ret_error (Format f e) = Some (''failed to marshal fields to JSON, '' @ Error_text er)
        \<and> ret_bytes (Format f e) = None)
    \<and> (\<forall>er. marshal (GMap (document_trim ft e)) (PrettyPrint ft) 0 = Inl er \<longrightarrow>
          ret_error (Format_trim ft e)
            = Some (''failed to marshal fields to JSON, '' @ Error_text er)
        \<and> ret_bytes (Format_trim ft e) = None)
    \<and> ((\<forall>v \<in> snd ` set (Data e). \<not> isl (marshal (fieldValue v) (PrettyPrint f) (Suc 0))) \<longrightarrow>
          ret_error (Format f e) = None \<and> ret_bytes (Format f e) \<noteq> None)
    \<and> ((\<forall>v \<in> snd ` set (Data e). \<not> isl (marshal (fieldValue_trim v) (PrettyPrint ft) (Suc 0))) \<longrightarrow>
          ret_error (Format_trim ft e) = None \<and> ret_bytes (Format_trim ft e) \<noteq> None)"
proof (intro conjI allI impI)
  show "ret_error (Format f e) \<noteq> None \<longleftrightarrow> isl (marshal (GMap (document f e)) (PrettyPrint f) 0)"
    by (simp only: Format_def encodeEntry_error_iff)
  show "ret_error (Format_trim ft e) \<noteq> None
      \<longleftrightarrow> isl (marshal (GMap (document_trim ft e)) (PrettyPrint ft) 0)"
    by (simp only: Format_trim_def encodeEntry_error_iff)
next
  fix er assume "marshal (GMap (document f e)) (PrettyPrint f) 0 = Inl er"
  then show "ret_error (Format f e) = Some (''failed to marshal fields to JSON, '' @ Error_text er)"
    and "ret_bytes (Format f e) = None"
    by (simp_all add: Format_def encodeEntry_failure)
next
  fix er assume "marshal (GMap (document_trim ft e)) (PrettyPrint ft) 0 = Inl er"
  then show "ret_error (Format_trim ft e)
      = Some (''failed to marshal fields to JSON, '' @ Error_text er)"
    and "ret_bytes (Format_trim ft e) = None"
    by (simp_all add: Format_trim_def encodeEntry_failure)
next
  assume "\<forall>v \<in> snd ` set (Data e). \<not> isl (marshal (fieldValue v) (PrettyPrint f) (Suc 0))"
  then have "\<not> isl (marshal (GMap (document f e)) (PrettyPrint f) 0)"
    by (intro document_marshals) force
  then show "ret_error (Format f e) = None" and "ret_bytes (Format f e) \<noteq> None"
    using encodeEntry_error_iff [of "PrettyPrint f" e "document f e"]
      encodeEntry_bytes_iff [of "PrettyPrint f" e "document f e"]
    by (simp_all add: Format_def)
next
  assume "\<forall>v \<in> snd ` set (Data e). \<not> isl (marshal (fieldValue_trim v) (PrettyPrint ft) (Suc 0))"
  then have "\<not> isl (marshal (GMap (document_trim ft e)) (PrettyPrint ft) 0)"
    by (intro document_trim_marshals) force
  then show "ret_error (Format_trim ft e) = None" and "ret_bytes (Format_trim ft e) \<noteq> None"
    using encodeEntry_error_iff [of "PrettyPrint ft" e "document_trim ft e"]
      encodeEntry_bytes_iff [of "PrettyPrint ft" e "document_trim ft e"]
    by (simp_all add: Format_trim_def)
qed

theorem error_only_from_encoding_witness:
  "marshal (GMap (document plain_formatter (clash_entry [(''ch'', GUnsupported ''chan int'')])))
      (PrettyPrint plain_formatter) 0 = Inl (UnsupportedTypeError ''chan int'')
    \<and> ret_error (Format plain_formatter (clash_entry [(''ch'', GUnsupported ''chan int'')]))
        = Some ''failed to marshal fields to JSON, json: unsupported type: chan int''
    \<and> ret_bytes (Format plain_formatter (clash_entry [(''ch'', GUnsupported ''chan int'')]))
        = None
    \<and> marshal (GMap (document_trim trim_formatter
          (clash_entry [(''ch'', GUnsupported ''chan int'')])))
      (PrettyPrint trim_formatter) 0 = Inl (UnsupportedTypeError ''chan int'')
    \<and> ret_error (Format_trim trim_formatter (clash_entry [(''ch'', GUnsupported ''chan int'')]))
        = Some ''failed to marshal fields to JSON, json: unsupported type: chan int''
    \<and> ret_bytes (Format_trim trim_formatter (clash_entry [(''ch'', GUnsupported ''chan int'')]))
        = None
    \<and> list_all (\<lambda>v. \<not> isl (marshal (fieldValue v) (PrettyPrint plain_formatter) (Suc 0)))
          (map snd (Data sample_entry))
    \<and> list_all (\<lambda>v. \<not> isl (marshal (fieldValue_trim v) (PrettyPrint trim_formatter) (Suc 0)))
          (map snd (Data sample_entry))
    \<and> ret_error (Format plain_formatter sample_entry) = None
    \<and> ret_bytes (Format plain_formatter sample_entry) \<noteq> None
    \<and> ret_error (Format_trim trim_formatter sample_entry) = None
    \<and> ret_bytes (Format_trim trim_formatter sample_entry) \<noteq> None"
proof -
  have bad: "marshal (GMap (document plain_formatter
        (clash_entry [(''ch'', GUnsupported ''chan int'')])))
      (PrettyPrint plain_formatter) 0 = Inl (UnsupportedTypeError ''chan int'')"
    "marshal (GMap (document_trim trim_formatter
        (clash_entry [(''ch'', GUnsupported ''chan int'')])))
      (PrettyPrint trim_formatter) 0 = Inl (UnsupportedTypeError ''chan int'')"
    by (simp_all add: eval_simps)
  have good: "list_all (\<lambda>v. \<not> isl (marshal (fieldValue v) (PrettyPrint plain_formatter) (Suc 0)))
        (map snd (Data sample_entry))"
    "list_all (\<lambda>v. \<not> isl (marshal (fieldValue_trim v) (PrettyPrint trim_formatter) (Suc 0)))
        (map snd (Data sample_entry))"
    by (simp_all add: eval_simps)
  then have good': "\<forall>v \<in> snd ` set (Data sample_entry).
        \<not> isl (marshal (fieldValue v) (PrettyPrint plain_formatter) (Suc 0))"
    "\<forall>v \<in> snd ` set (Data sample_entry).
        \<not> isl (marshal (fieldValue_trim v) (PrettyPrint trim_formatter) (Suc 0))"
    by (simp_all add: list_all_iff)
  show ?thesis
    using error_only_from_encoding [where e = "clash_entry [(''ch'', GUnsupported ''chan int'')]"
        and f = plain_formatter and ft = trim_formatter]
      error_only_from_encoding [where e = sample_entry
        and f = plain_formatter and ft = trim_formatter]
    by (simp add: bad good good' del: marshal.simps)
qed

subsection \<open>The entry's buffer\<close>



subsection \<open>An empty source-location object\<close>

text \<open>
  Claim C10. For an entry with a caller the document always has the source-location key;
  when the prettyfier returns the empty string for both function and file, its value is
  the empty object, which is encoded as \<^verbatim>\<open>{}\<close>, and the returned bytes hold the key
  with that value when \<^verbatim>\<open>Format\<close> returns no error.
\<close>

theorem source_location_always_present:
  fixes f :: Formatter and ft :: Formatter_trim
  assumes "HasCaller e"
  shows "map_of (document f e) sourceLocationKey \<noteq> None
    \<and> map_of (document_trim ft e) sourceLocationKey \<noteq> None
    \<and> (\<forall>p c. CallerPrettyfier f = Some p \<and> Caller e = Some c \<and> p c = ('''', '''') \<longrightarrow>
          map_of (document f e) sourceLocationKey = Some (GMap []))
    \<and> (\<forall>p c. CallerPrettyfier ft = Some p \<and> Caller e = Some c \<and> p c = ('''', '''') \<longrightarrow>
          map_of (document_trim ft e) sourceLocationKey = Some (GMap []))
    \<and> marshal (GMap []) pretty d = Inr ''{}''
    \<and> (\<forall>p c. CallerPrettyfier f = Some p \<and> Caller e = Some c \<and> p c = ('''', '''')
            \<and> ret_error (Format f e) = None \<longrightarrow>
          (\<exists>out. ret_bytes (Format f e) = Some out
             \<and> hasMember out (PrettyPrint f) sourceLocationKey ''{}''))
    \<and> (\<forall>p c. CallerPrettyfier ft = Some p \<and> Caller e = Some c \<and> p c = ('''', '''')
            \<and> ret_error (Format_trim ft e) = None \<longrightarrow>
          (\<exists>out. ret_bytes (Format_trim ft e) = Some out
             \<and> hasMember out (PrettyPrint ft) sourceLocationKey ''{}''))"
proof -
  from assms obtain c where c: "Caller e = Some c"
    by (auto dest: HasCaller_Caller)
  have empty: "marshal (GMap []) pretty d = Inr ''{}''" for pretty d
    by (simp add: object_def)
  have doc: "map_of (document f e) sourceLocationKey = Some (GMap [])"
    if "CallerPrettyfier f = Some p" and "p c = ('''', '''')" for p
    using sourceLocation_document [OF assms c, of f] that
    by (simp add: callerStrings_def sourceLocation_def)
  have doc_trim: "map_of (document_trim ft e) sourceLocationKey = Some (GMap [])"
    if "CallerPrettyfier ft = Some p" and "p c = ('''', '''')" for p
    using sourceLocation_document_trim [OF assms c, of ft] that
    by (simp add: callerStrings_trim_def sourceLocation_def)
  have out: "\<exists>out. ret_bytes (Format f e) = Some out
      \<and> hasMember out (PrettyPrint f) sourceLocationKey ''{}''"
    if "CallerPrettyfier f = Some p" and "p c = ('''', '''')"
      and "ret_error (Format f e) = None" for p
    using encodeEntry_member [of "PrettyPrint f" e "document f e" sourceLocationKey "GMap []"]
      doc [OF that(1,2)] that(3) empty
    by (simp add: Format_def del: marshal.simps)
  have out_trim: "\<exists>out. ret_bytes (Format_trim ft e) = Some out
      \<and> hasMember out (PrettyPrint ft) sourceLocationKey ''{}''"
    if "CallerPrettyfier ft = Some p" and "p c = ('''', '''')"
      and "ret_error (Format_trim ft e) = None" for p
    using encodeEntry_member [of "PrettyPrint ft" e "document_trim ft e" sourceLocationKey
        "GMap []"] doc_trim [OF that(1,2)] that(3) empty
    by (simp add: Format_trim_def del: marshal.simps)
  show ?thesis
    using sourceLocation_document [OF assms c, of f]
      sourceLocation_document_trim [OF assms c, of ft] c doc doc_trim out out_trim empty
    by (auto simp del: marshal.simps)
qed

theorem source_location_always_present_witness:
  "HasCaller sample_entry
    \<and> CallerPrettyfier silent_formatter = Some (\<lambda>c. ('''', ''''))
    \<and> CallerPrettyfier silent_formatter_trim = Some (\<lambda>c. ('''', ''''))
    \<and> map_of (document silent_formatter sample_entry) sourceLocationKey = Some (GMap [])
    \<and> map_of (document_trim silent_formatter_trim sample_entry) sourceLocationKey
        = Some (GMap [])
    \<and> marshal (GMap []) True 1 = Inr ''{}''
    \<and> ret_error (Format silent_formatter sample_entry) = None
    \<and> ret_error (Format_trim silent_formatter_trim sample_entry) = None
    \<and> (\<exists>out. ret_bytes (Format silent_formatter sample_entry) = Some out
          \<and> hasMember out True sourceLocationKey ''{}'')
    \<and> (\<exists>out. ret_bytes (Format_trim silent_formatter_trim sample_entry) = Some out
          \<and> hasMember out True sourceLocationKey ''{}'')"
proof -
  have h: "HasCaller sample_entry" "Caller sample_entry = Some sample_caller"
    "CallerPrettyfier silent_formatter = Some (\<lambda>c. ('''', ''''))"
    "CallerPrettyfier silent_formatter_trim = Some (\<lambda>c. ('''', ''''))"
    "PrettyPrint silent_formatter = True" "PrettyPrint silent_formatter_trim = True"
    by (simp_all add: HasCaller_def sample_entry_def silent_formatter_def
        silent_formatter_trim_def)
  have ok: "ret_error (Format silent_formatter sample_entry) = None"
    "ret_error (Format_trim silent_formatter_trim sample_entry) = None"
    by (simp_all add: eval_simps)
  show ?thesis
    using source_location_always_present [where e = sample_entry and f = silent_formatter
        and ft = silent_formatter_trim and pretty = True and d = 1]
    by (simp add: h ok)
qed

end
